theory Spec2Isabelle
  imports Complex_Main "HOL-Library.Word" "HOL-Library.Sublist" "HOL-Library.Log_Nat"
begin

unbundle bit_operations_syntax

section \<open>JavaScript values of the Bulkie class\<close>

text \<open>
  Strings of the class are byte strings (UTF-8); the class only concatenates them, compares
  them and tests them for emptiness. Anything can be thrown: an error object with a name
  and a message (\<open>new Error(m)\<close> has the name \<open>Error\<close>), undefined, null, or any
  other value, of which the class can only read the message property, if it has one, and
  the conversion to a string.
\<close>

datatype js_error =
    JsError string string
  | JsValue "string option" string
  | JsUndefined
  | JsNull

definition Error :: "string \<Rightarrow> js_error" where
  "Error m = JsError ''Error'' m"

text \<open>
  The conversion to a string that a template literal applies to a caught value; for an
  error object it is Error.prototype.toString.
\<close>

fun error_toString :: "js_error \<Rightarrow> string" where
  "error_toString (JsError name msg) =
     (if name = [] then msg else if msg = [] then name else name @ '': '' @ msg)"
| "error_toString (JsValue msg str) = str"
| "error_toString JsUndefined = ''undefined''"
| "error_toString JsNull = ''null''"

text \<open>The cross mark U+274C that opens the requirement messages, in UTF-8.\<close>

definition cross_mark :: string where
  "cross_mark = [CHR 0xE2, CHR 0x9D, CHR 0x8C]"

text \<open>Truthiness of an optional string: undefined and the empty string are falsy.\<close>

fun truthy :: "string option \<Rightarrow> bool" where
  "truthy None = False"
| "truthy (Some s) = (s \<noteq> [])"

subsection \<open>types.ts\<close>

datatype fn_name =
    FN_connectToLitNodeClient
  | FN_connectToLitContracts
  | FN_mintPKP
  | FN_mintCreditsNFT
  | FN_createCreditsDelegationToken
  | FN_createAccessToken
  | FN_grantAuthMethodToUsePKP
  | FN_grantIPFSCIDtoUsePKP
  | FN_getPkps
  | FN_executeJs

fun FN :: "fn_name \<Rightarrow> string" where
  "FN FN_connectToLitNodeClient = ''connectToLitNodeClient''"
| "FN FN_connectToLitContracts = ''connectToLitContracts''"
| "FN FN_mintPKP = ''mintPKP''"
| "FN FN_mintCreditsNFT = ''mintCreditsNFT''"
| "FN FN_createCreditsDelegationToken = ''createCreditsDelegationToken''"
| "FN FN_createAccessToken = ''createAccessToken''"
| "FN FN_grantAuthMethodToUsePKP = ''grantAuthMethodToUsePKP''"
| "FN FN_grantIPFSCIDtoUsePKP = ''grantIPFSCIDtoUsePKP''"
| "FN FN_getPkps = ''getPkps''"
| "FN FN_executeJs = ''executeJs''"

record TX =
  hash :: string
  explorer :: string

record PKPTokenId =
  hex :: string
  decimal :: string

record pkp_info =
  tokenId :: PKPTokenId
  publicKey :: string
  ethAddress :: string

subsection \<open>Objects of the vendor SDKs\<close>

text \<open>
  A signer is an opaque object of the signer library. The two clients are determined by
  the options they are constructed from. Tokens returned by the network are opaque. A
  resource of the auth-helpers package holds its kind and the request string.
\<close>

datatype signer = Signer nat

datatype node_client = LitNodeClient (litNetwork: string) (nc_debug: bool) (rpcUrl: "string option")

datatype contracts =
  LitContracts (lc_debug: bool) (lc_network: string) (lc_signer: "signer option") (lc_rpc: "string option")

datatype authsig = AuthSig (signedMessage: string)

datatype session_sigs = SessionSigsMap string

datatype jsval = JsVal string

record mint_result =
  tx_hash :: string
  pkp_tokenId :: string
  pkp_publicKey :: string
  pkp_ethAddress :: string

datatype lit_resource =
    LitAccessControlConditionResource string
  | LitActionResource string
  | LitRLIResource string
  | LitPKPResource string

datatype lit_ability =
    AccessControlConditionSigning
  | AccessControlConditionDecryption
  | LitActionExecution
  | RateLimitIncreaseAuth
  | PKPSigning

datatype lit_action = LitActionCode string | LitActionIpfsId "string option"

text \<open>
  Every call into a vendor SDK, with the arguments the class passes; the constructor of
  every vendor class is one. The trace of a run is a list of events: a synchronous call (a
  constructor, \<open>signer.connect\<close>), the issue of an asynchronous call, and the moment the
  awaiting code resumes with its outcome.
\<close>

datatype sdk_call =
    New_LitNodeClient node_client
  | LitNodeClient_connect
  | New_JsonRpcProvider "string option"
  | Signer_connect signer
  | Web3Provider_getSigner
  | Signer_getAddress signer
  | Signer_getBalance signer
  | New_LitContracts contracts
  | New_resource lit_resource
  | LitContracts_connect
  | PkpNft_mint
  | Signer_sendTransaction signer string int
  | Tx_wait nat
  | Provider_getBalance signer string
  | PkpNft_getTokensByAddress string
  | PkpPermissions_getPubkey string
  | MintCapacityCreditsNFT int int
  | CreateCapacityDelegationAuthSig "string option" signer string "string list option"
  | GetLitActionSessionSigs string "(lit_resource \<times> lit_ability) list" lit_action
      "jsval option" "authsig list"
  | AddPermittedAuthMethod string string int "int list"
  | AddPermittedAction string string "int list"

datatype event = Called sdk_call | Issue sdk_call | Settle sdk_call

text \<open>
  What is outside the class: the clock, the host (Node.js or a browser), the constant
  tables of the vendor packages, the TypeError the engine raises when a property of
  undefined or of null is read, the pure utility functions of the signer library, and the
  outcome of every vendor call. An outcome may depend on the call and on the number of
  events that came before it, so the same call can answer differently over time.
\<close>

record env =
  now :: "nat \<Rightarrow> int"
  window :: "bool option"
  RPC_URL_BY_NETWORK :: "string \<Rightarrow> string option"
  blockExplorerUrl :: "string \<Rightarrow> js_error + string"
  undefined_read :: "string \<Rightarrow> js_error"
  null_read :: "string \<Rightarrow> js_error"
  signer_provider :: "signer \<Rightarrow> bool"
  parseEther :: "string \<Rightarrow> js_error + int"
  BigNumber_toString :: "string \<Rightarrow> js_error + string"
  BigNumber_toHexString :: "string \<Rightarrow> js_error + string"
  computeAddress :: "string \<Rightarrow> js_error + string"
  base64 :: "string \<Rightarrow> string"
  reply_unit :: "nat \<Rightarrow> sdk_call \<Rightarrow> js_error + unit"
  reply_string :: "nat \<Rightarrow> sdk_call \<Rightarrow> js_error + string"
  reply_strings :: "nat \<Rightarrow> sdk_call \<Rightarrow> js_error + string list"
  reply_signer :: "nat \<Rightarrow> sdk_call \<Rightarrow> js_error + signer"
  reply_tx :: "nat \<Rightarrow> sdk_call \<Rightarrow> js_error + nat option"
  reply_mint :: "nat \<Rightarrow> sdk_call \<Rightarrow> js_error + mint_result"
  reply_authsig :: "nat \<Rightarrow> sdk_call \<Rightarrow> js_error + authsig"
  reply_sigs :: "nat \<Rightarrow> sdk_call \<Rightarrow> js_error + session_sigs"

subsection \<open>The instance\<close>

datatype cached_output =
    Out_LitNodeClient node_client
  | Out_LitContracts contracts
  | Out_PKP pkp_info TX
  | Out_CreditsToken string
  | Out_AuthSig authsig
  | Out_SessionSigs session_sigs
  | Out_TX TX

text \<open>
  The fields of the class, followed by what the run has done to the outside: the number
  of clock readings taken and the trace of vendor calls. Console output is not recorded.
\<close>

record bulkie =
  debug :: bool
  litDebug :: bool
  guides :: bool
  network :: string
  litNodeClient :: "node_client option"
  litContracts :: "contracts option"
  signer :: "signer option"
  rpc :: "string option"
  executionTimes :: "int list"
  outputs :: "string \<Rightarrow> cached_output option"
  ticks :: nat
  events :: "event list"

section \<open>Methods as state transformers that may throw\<close>

text \<open>
  A method maps the instance to an outcome and the instance as the method left it: what
  was assigned before a throw stays assigned.
\<close>

type_synonym 'a io = "bulkie \<Rightarrow> (js_error + 'a) \<times> bulkie"

definition io_return :: "'a \<Rightarrow> 'a io" where
  "io_return x s = (Inr x, s)"

definition io_throw :: "js_error \<Rightarrow> 'a io" where
  "io_throw e s = (Inl e, s)"

definition io_bind :: "'a io \<Rightarrow> ('a \<Rightarrow> 'b io) \<Rightarrow> 'b io" where
  "io_bind m f s = (case m s of (Inl e, s') \<Rightarrow> (Inl e, s') | (Inr x, s') \<Rightarrow> f x s')"

definition io_catch :: "'a io \<Rightarrow> (js_error \<Rightarrow> 'a io) \<Rightarrow> 'a io" where
  "io_catch m h s = (case m s of (Inl e, s') \<Rightarrow> h e s' | (Inr x, s') \<Rightarrow> (Inr x, s'))"

definition io_get :: "bulkie io" where
  "io_get s = (Inr s, s)"

definition io_modify :: "(bulkie \<Rightarrow> bulkie) \<Rightarrow> unit io" where
  "io_modify f s = (Inr (), f s)"

definition io_lift :: "js_error + 'a \<Rightarrow> 'a io" where
  "io_lift r s = (r, s)"

definition io_when :: "bool \<Rightarrow> unit io \<Rightarrow> unit io" where
  "io_when b m = (if b then m else io_return ())"

text \<open>
  \<open>e.message\<close> inside a template literal, for a caught e: the message of an error
  object, the text \<open>undefined\<close> for a value without the property, and a TypeError of
  the engine when e is undefined or null.
\<close>

fun read_message :: "env \<Rightarrow> js_error \<Rightarrow> js_error + string" where
  "read_message E (JsError name msg) = Inr msg"
| "read_message E (JsValue (Some msg) str) = Inr msg"
| "read_message E (JsValue None str) = Inr ''undefined''"
| "read_message E JsUndefined = Inl (undefined_read E ''message'')"
| "read_message E JsNull = Inl (null_read E ''message'')"

text \<open>A synchronous vendor call, and an awaited asynchronous one.\<close>

definition call :: "sdk_call \<Rightarrow> (nat \<Rightarrow> sdk_call \<Rightarrow> js_error + 'a) \<Rightarrow> 'a io" where
  "call c reply s = (reply (length (events s)) c, s\<lparr>events := events s @ [Called c]\<rparr>)"

definition new_object :: "sdk_call \<Rightarrow> unit io" where
  "new_object c s = (Inr (), s\<lparr>events := events s @ [Called c]\<rparr>)"

definition await :: "sdk_call \<Rightarrow> (nat \<Rightarrow> sdk_call \<Rightarrow> js_error + 'a) \<Rightarrow> 'a io" where
  "await c reply s =
     (reply (length (events s)) c, s\<lparr>events := events s @ [Issue c, Settle c]\<rparr>)"

definition Date_now :: "env \<Rightarrow> int io" where
  "Date_now E s = (Inr (now E (ticks s)), s\<lparr>ticks := Suc (ticks s)\<rparr>)"


section \<open>The Bulkie class\<close>

subsection \<open>Constructor\<close>

record bulkie_params =
  p_network :: string
  p_debug :: "bool option"
  p_litDebug :: "bool option"
  p_guides :: "bool option"
  p_signer :: "signer option"
  p_rpc :: "string option"

text \<open>
  The block that attaches the signer to a provider, written twice in the source (in the
  constructor and in connectToLitContracts).
\<close>

definition attach_signer :: "env \<Rightarrow> signer \<Rightarrow> unit io" where
  "attach_signer E sg =
     (case window E of
        None \<Rightarrow>
          io_bind io_get (\<lambda>s.
          io_bind (new_object (New_JsonRpcProvider (rpc s))) (\<lambda>_.
          io_bind (call (Signer_connect sg) (reply_signer E)) (\<lambda>sg'.
          io_modify (\<lambda>s. s\<lparr>signer := Some sg'\<rparr>))))
      | Some ethereum \<Rightarrow>
          if ethereum then
            io_bind (call Web3Provider_getSigner (reply_signer E)) (\<lambda>sg'.
            io_modify (\<lambda>s. s\<lparr>signer := Some sg'\<rparr>))
          else io_return ())"

definition new_Bulkie :: "env \<Rightarrow> bulkie_params \<Rightarrow> (js_error + unit) \<times> bulkie" where
  "new_Bulkie E params =
     (let this = \<lparr>debug = False, litDebug = False, guides = False, network = [],
                  litNodeClient = None, litContracts = None, signer = None, rpc = None,
                  executionTimes = [], outputs = (\<lambda>_. None), ticks = 0, events = []\<rparr>
      in if p_network params = [] then (Inl (Error ''Network is required''), this)
         else
           (let this = this\<lparr>
                  network := p_network params,
                  debug := (case p_debug params of Some b \<Rightarrow> b | None \<Rightarrow> False),
                  litDebug := (case p_litDebug params of Some b \<Rightarrow> b | None \<Rightarrow> False),
                  guides := (case p_guides params of Some b \<Rightarrow> b | None \<Rightarrow> False),
                  rpc := (if truthy (p_rpc params) then p_rpc params
                          else RPC_URL_BY_NETWORK E (p_network params)),
                  signer := p_signer params\<rparr>
            in case signer this of
                 None \<Rightarrow> (Inr (), this)
               | Some sg \<Rightarrow> attach_signer E sg this))"

subsection \<open>Getters\<close>

definition output_key :: "fn_name \<Rightarrow> string option \<Rightarrow> string" where
  "output_key fnName outputId =
     (case outputId of
        None \<Rightarrow> FN fnName
      | Some i \<Rightarrow> if i \<noteq> [] then FN fnName @ '':'' @ i else FN fnName)"

definition getOutput :: "bulkie \<Rightarrow> fn_name \<Rightarrow> string option \<Rightarrow> cached_output option" where
  "getOutput this fnName outputId = outputs this (output_key fnName outputId)"

definition getAllOutputs :: "bulkie \<Rightarrow> string \<Rightarrow> cached_output option" where
  "getAllOutputs this = outputs this"

text \<open>
  Numbers. A clock reading is a time value, an integer of magnitude at most 8.64e15; a
  double holds it exactly, as it does the differences of two readings and their sums up
  to 2^53, and these are kept as integers. A quotient is in general not an integer: the
  division gives the double nearest to the exact quotient, the even one of two that are
  equally near, and an infinity beyond the largest double.
\<close>

datatype js_number = Number rat | PositiveInfinity | NegativeInfinity





record execution_time =
  ms :: int
  sec :: js_number


subsection \<open>Utils\<close>

definition priv_setOutput :: "fn_name \<Rightarrow> cached_output \<Rightarrow> string option \<Rightarrow> unit io" where
  "priv_setOutput fnName out outputId =
     io_modify (\<lambda>this. this\<lparr>outputs := (outputs this)(output_key fnName outputId \<mapsto> out)\<rparr>)"

definition require_network :: "unit io" where
  "require_network =
     io_bind io_get (\<lambda>this.
       if network this = [] then io_throw (Error (cross_mark @ '' this.network is required''))
       else io_return ())"

definition require_litNodeClient :: "unit io" where
  "require_litNodeClient =
     io_bind io_get (\<lambda>this.
       if litNodeClient this = None
       then io_throw (Error (cross_mark @ '' LitNodeClient is required''))
       else io_return ())"

definition require_litContracts :: "unit io" where
  "require_litContracts =
     io_bind io_get (\<lambda>this.
       if litContracts this = None
       then io_throw (Error (cross_mark @ '' LitContracts is required''))
       else io_return ())"

definition require_signer :: "unit io" where
  "require_signer =
     io_bind io_get (\<lambda>this.
       if signer this = None then io_throw (Error (cross_mark @ '' Signer is required''))
       else io_return ())"

text \<open>
  A switch statement: control enters at the first case whose label equals the value and
  runs the bodies in order until one ends with break. With no matching case it enters
  the default, which is here last and empty.
\<close>

fun switch_from :: "('l \<times> unit io \<times> bool) list \<Rightarrow> unit io" where
  "switch_from [] = io_return ()"
| "switch_from ((l, body, brk) # cs) =
     io_bind body (\<lambda>_. if brk then io_return () else switch_from cs)"

fun switch :: "'l \<Rightarrow> ('l \<times> unit io \<times> bool) list \<Rightarrow> unit io" where
  "switch v [] = io_return ()"
| "switch v ((l, body, brk) # cs) =
     (if v = l then switch_from ((l, body, brk) # cs) else switch v cs)"

definition priv_checkRequirements :: "fn_name \<Rightarrow> unit io" where
  "priv_checkRequirements fnName =
     switch fnName
       [(FN_connectToLitNodeClient, require_network, True),
        (FN_connectToLitContracts, require_network, True),
        (FN_mintPKP, io_bind require_litContracts (\<lambda>_. require_signer), True),
        (FN_mintCreditsNFT, io_bind require_litContracts (\<lambda>_. require_signer), True),
        (FN_getPkps, io_bind require_litContracts (\<lambda>_. require_signer), True),
        (FN_grantAuthMethodToUsePKP, io_bind require_litContracts (\<lambda>_. require_signer), False),
        (FN_createAccessToken, require_litNodeClient, False)]"

text \<open>
  What the catch of the runner throws for a caught e: the new Error, or the TypeError
  that reading the message of undefined or null raises first.
\<close>

definition rethrown :: "env \<Rightarrow> string \<Rightarrow> js_error \<Rightarrow> js_error" where
  "rethrown E opName e =
     (case read_message E e of
        Inl typeError \<Rightarrow> typeError
      | Inr msg \<Rightarrow> Error (''Error in '' @ opName @ '': '' @ msg))"

definition priv_run :: "env \<Rightarrow> string \<Rightarrow> fn_name \<Rightarrow> 'a io \<Rightarrow> 'a io" where
  "priv_run E opName fnName action =
     io_bind (Date_now E) (\<lambda>startTime.
       io_catch
         (io_bind (priv_checkRequirements fnName) (\<lambda>_.
          io_bind action (\<lambda>result.
          io_bind (Date_now E) (\<lambda>endTime.
          io_bind (io_modify (\<lambda>this.
                     this\<lparr>executionTimes := executionTimes this @ [endTime - startTime]\<rparr>)) (\<lambda>_.
          io_return result)))))
         (\<lambda>e. io_throw (rethrown E opName e)))"


text \<open>
  Reading a member of \<open>this.litContracts\<close> or \<open>this.litNodeClient\<close> while the field is
  undefined raises the engine's TypeError.
\<close>

definition this_litContracts :: "env \<Rightarrow> string \<Rightarrow> contracts io" where
  "this_litContracts E member =
     io_bind io_get (\<lambda>this.
       case litContracts this of
         None \<Rightarrow> io_throw (undefined_read E member)
       | Some c \<Rightarrow> io_return c)"

definition this_litNodeClient :: "env \<Rightarrow> string \<Rightarrow> node_client io" where
  "this_litNodeClient E member =
     io_bind io_get (\<lambda>this.
       case litNodeClient this of
         None \<Rightarrow> io_throw (undefined_read E member)
       | Some c \<Rightarrow> io_return c)"

text \<open>
  \<open>Promise.all(xs.map(async x => { const r = await call(x); return k(x, r) }))\<close>.
  The map runs every callback up to its await, so all the calls are issued, in order,
  before any callback resumes. The callbacks are taken to resume in the order of issue;
  the first one that throws rejects the whole, and what the others do after that is no
  longer observed by the caller.
\<close>

fun resume_all ::
  "('x \<Rightarrow> sdk_call) \<Rightarrow> (nat \<Rightarrow> sdk_call \<Rightarrow> js_error + 'r) \<Rightarrow> ('x \<Rightarrow> 'r \<Rightarrow> js_error + 'b) \<Rightarrow>
   nat \<Rightarrow> 'x list \<Rightarrow> 'b list io" where
  "resume_all c reply k n [] = io_return []"
| "resume_all c reply k n (x # xs) =
     io_bind (io_modify (\<lambda>this. this\<lparr>events := events this @ [Settle (c x)]\<rparr>)) (\<lambda>_.
     io_bind (io_lift (case reply n (c x) of Inl e \<Rightarrow> Inl e | Inr r \<Rightarrow> k x r)) (\<lambda>y.
     io_bind (resume_all c reply k (Suc n) xs) (\<lambda>ys.
     io_return (y # ys))))"

definition Promise_all_map ::
  "('x \<Rightarrow> sdk_call) \<Rightarrow> (nat \<Rightarrow> sdk_call \<Rightarrow> js_error + 'r) \<Rightarrow> ('x \<Rightarrow> 'r \<Rightarrow> js_error + 'b) \<Rightarrow>
   'x list \<Rightarrow> 'b list io" where
  "Promise_all_map c reply k xs =
     io_bind io_get (\<lambda>this.
     io_bind (io_modify (\<lambda>this. this\<lparr>events := events this @ map (\<lambda>x. Issue (c x)) xs\<rparr>)) (\<lambda>_.
     resume_all c reply k (length (events this)) xs))"

subsection \<open>Getter that calls the network\<close>

text \<open>
  Every operation hands the runner an asynchronous function, its action. The actions are
  named here after their operations.
\<close>

definition getPkps_entry :: "env \<Rightarrow> string \<Rightarrow> string \<Rightarrow> js_error + pkp_info" where
  "getPkps_entry E tokenId' publicKey' =
     (case computeAddress E (''0x'' @ drop 2 publicKey') of
        Inl e \<Rightarrow> Inl e
      | Inr ethAddress' \<Rightarrow>
          (case BigNumber_toHexString E tokenId' of
             Inl e \<Rightarrow> Inl e
           | Inr tokenIdHex \<Rightarrow>
               Inr \<lparr>tokenId = \<lparr>hex = tokenIdHex, decimal = tokenId'\<rparr>,
                    publicKey = publicKey', ethAddress = ethAddress'\<rparr>))"

definition getPkps_action :: "env \<Rightarrow> pkp_info list io" where
  "getPkps_action E =
     io_bind io_get (\<lambda>this.
     io_bind (case signer this of
                None \<Rightarrow> io_return None
              | Some sg \<Rightarrow>
                  io_bind (await (Signer_getAddress sg) (reply_string E)) (\<lambda>a.
                  io_return (Some a))) (\<lambda>signerAddress.
     case signerAddress of
       None \<Rightarrow> io_throw (Error ''Signer address is required'')
     | Some a \<Rightarrow>
         if a = [] then io_throw (Error ''Signer address is required'')
         else
           io_bind (this_litContracts E ''pkpNftContractUtils'') (\<lambda>_.
           io_bind (await (PkpNft_getTokensByAddress a) (reply_strings E)) (\<lambda>tokens.
           Promise_all_map PkpPermissions_getPubkey (reply_string E) (getPkps_entry E)
             tokens))))"

definition getPkps :: "env \<Rightarrow> pkp_info list io" where
  "getPkps E =
     io_bind (priv_checkRequirements FN_getPkps) (\<lambda>_.
     priv_run E ''Get PKPs'' FN_getPkps (getPkps_action E))"

subsection \<open>Actions\<close>

record OutputHandler =
  outputId :: "string option"

definition connectToLitNodeClient_action :: "env \<Rightarrow> OutputHandler \<Rightarrow> unit io" where
  "connectToLitNodeClient_action E params =
     io_bind io_get (\<lambda>this.
     let client = LitNodeClient (network this) (litDebug this) (rpc this) in
     io_bind (new_object (New_LitNodeClient client)) (\<lambda>_.
     io_bind (io_modify (\<lambda>this. this\<lparr>litNodeClient := Some client\<rparr>)) (\<lambda>_.
     io_bind (await LitNodeClient_connect (reply_unit E)) (\<lambda>_.
     priv_setOutput FN_connectToLitNodeClient (Out_LitNodeClient client) (outputId params)))))"

definition connectToLitNodeClient :: "env \<Rightarrow> OutputHandler \<Rightarrow> unit io" where
  "connectToLitNodeClient E params =
     priv_run E ''LitNodeClient connection'' FN_connectToLitNodeClient
       (connectToLitNodeClient_action E params)"

text \<open>
  The two reads of the signer in connectToLitContracts only feed the debug log. They are
  in a try of their own, whose catch writes the message of the caught value to the log.
\<close>

definition read_signer :: "env \<Rightarrow> unit io" where
  "read_signer E =
     io_bind io_get (\<lambda>this.
       case signer this of
         None \<Rightarrow> io_throw (undefined_read E ''getAddress'')
       | Some sg \<Rightarrow>
           io_bind (await (Signer_getAddress sg) (reply_string E)) (\<lambda>_.
           await (Signer_getBalance sg) (reply_unit E)))"

definition log_signer :: "env \<Rightarrow> unit io" where
  "log_signer E =
     io_catch (read_signer E)
       (\<lambda>e. io_bind (io_lift (read_message E e)) (\<lambda>_. io_return ()))"

definition connectToLitContracts_action :: "env \<Rightarrow> OutputHandler \<Rightarrow> unit io" where
  "connectToLitContracts_action E params =
     io_bind io_get (\<lambda>this.
     io_bind (case signer this of
                None \<Rightarrow> io_return ()
              | Some sg \<Rightarrow> io_bind (attach_signer E sg) (\<lambda>_. log_signer E)) (\<lambda>_.
     io_bind io_get (\<lambda>this.
     let c = LitContracts (litDebug this) (network this) (signer this) (rpc this) in
     io_bind (new_object (New_LitContracts c)) (\<lambda>_.
     io_bind (io_modify (\<lambda>this. this\<lparr>litContracts := Some c\<rparr>)) (\<lambda>_.
     io_bind (await LitContracts_connect (reply_unit E)) (\<lambda>_.
     priv_setOutput FN_connectToLitContracts (Out_LitContracts c) (outputId params)))))))"

definition connectToLitContracts :: "env \<Rightarrow> OutputHandler \<Rightarrow> unit io" where
  "connectToLitContracts E params =
     priv_run E ''LitContracts connection'' FN_connectToLitContracts
       (connectToLitContracts_action E params)"

record mintPKP_params = OutputHandler +
  selfFund :: "bool option"
  amountInEth :: "string option"

text \<open>
  The self-funding block of mintPKP: a try, and a catch that throws a new Error made of
  the caught value.
\<close>

definition fund_pkp_try :: "env \<Rightarrow> string \<Rightarrow> string \<Rightarrow> unit io" where
  "fund_pkp_try E amount to_address =
     io_bind io_get (\<lambda>this.
     io_bind (case signer this of
                None \<Rightarrow> io_return None
              | Some sg \<Rightarrow>
                  io_bind (io_lift (parseEther E amount)) (\<lambda>v.
                  await (Signer_sendTransaction sg to_address v) (reply_tx E))) (\<lambda>tx.
     case tx of
       None \<Rightarrow> io_throw (Error ''Transaction failed. This should never happen.'')
     | Some t \<Rightarrow>
         io_bind (await (Tx_wait t) (reply_unit E)) (\<lambda>_.
         io_bind io_get (\<lambda>this.
         io_bind (case signer this of
                    None \<Rightarrow> io_return ()
                  | Some sg \<Rightarrow>
                      if signer_provider E sg
                      then await (Provider_getBalance sg to_address) (reply_unit E)
                      else io_return ()) (\<lambda>_.
         case signer this of
           None \<Rightarrow> io_return ()
         | Some sg \<Rightarrow> await (Signer_getBalance sg) (reply_unit E))))))"

definition fund_pkp :: "env \<Rightarrow> string \<Rightarrow> string \<Rightarrow> unit io" where
  "fund_pkp E amount to_address =
     io_catch (fund_pkp_try E amount to_address)
       (\<lambda>e. io_throw (Error (''Error funding PKP: '' @ error_toString e)))"

definition mintPKP_action :: "env \<Rightarrow> mintPKP_params \<Rightarrow> unit io" where
  "mintPKP_action E params =
     (let selfFund' = (case selfFund params of Some b \<Rightarrow> b | None \<Rightarrow> False);
          amountInEth' = (case amountInEth params of
                            None \<Rightarrow> ''0.001''
                          | Some a \<Rightarrow> if a \<noteq> [] then a else ''0.001'')
      in
      io_bind (this_litContracts E ''pkpNftContractUtils'') (\<lambda>_.
      io_bind (await PkpNft_mint (reply_mint E)) (\<lambda>res.
      io_bind io_get (\<lambda>this.
      io_bind (io_lift (blockExplorerUrl E (network this))) (\<lambda>explorerUrl.
      let hashOnExplorer = explorerUrl @ ''tx/'' @ tx_hash res;
          hexPrefixedPublicKey = ''0x'' @ pkp_publicKey res
      in
      io_bind (io_lift (BigNumber_toString E (pkp_tokenId res))) (\<lambda>decimalTokenId.
      io_bind (io_when selfFund' (fund_pkp E amountInEth' (pkp_ethAddress res))) (\<lambda>_.
      priv_setOutput FN_mintPKP
        (Out_PKP
           \<lparr>tokenId = \<lparr>hex = pkp_tokenId res, decimal = decimalTokenId\<rparr>,
            publicKey = hexPrefixedPublicKey, ethAddress = pkp_ethAddress res\<rparr>
           \<lparr>hash = tx_hash res, explorer = hashOnExplorer\<rparr>)
        (outputId params))))))))"

definition mintPKP :: "env \<Rightarrow> mintPKP_params \<Rightarrow> unit io" where
  "mintPKP E params = priv_run E ''Mint PKP'' FN_mintPKP (mintPKP_action E params)"

record mintCreditsNFT_params = OutputHandler +
  requestsPerKilosecond :: int
  daysUntilUTCMidnightExpiration :: int

definition mintCreditsNFT_action :: "env \<Rightarrow> mintCreditsNFT_params \<Rightarrow> unit io" where
  "mintCreditsNFT_action E params =
     io_bind (this_litContracts E ''mintCapacityCreditsNFT'') (\<lambda>_.
     io_bind (await (MintCapacityCreditsNFT (requestsPerKilosecond params)
                       (daysUntilUTCMidnightExpiration params))
                (reply_string E)) (\<lambda>capacityTokenIdStr.
     priv_setOutput FN_mintCreditsNFT (Out_CreditsToken capacityTokenIdStr)
       (outputId params)))"

definition mintCreditsNFT :: "env \<Rightarrow> mintCreditsNFT_params \<Rightarrow> unit io" where
  "mintCreditsNFT E params =
     (if requestsPerKilosecond params = 0 \<or> daysUntilUTCMidnightExpiration params = 0
      then io_throw
             (Error ''requestsPerKilosecond and daysUntilUTCMidnightExpiration are required'')
      else
        priv_run E ''Mint Credits Token'' FN_mintCreditsNFT (mintCreditsNFT_action E params))"

record createCreditsDelegationToken_params = OutputHandler +
  expiry :: "string option"
  creditsTokenId :: string
  delegatees :: "string list option"

definition createCreditsDelegationToken_action ::
  "env \<Rightarrow> createCreditsDelegationToken_params \<Rightarrow> unit io" where
  "createCreditsDelegationToken_action E params =
     io_bind io_get (\<lambda>this.
     case signer this of
       None \<Rightarrow> io_throw (Error ''Signer is required'')
     | Some sg \<Rightarrow>
         io_bind (this_litNodeClient E ''createCapacityDelegationAuthSig'') (\<lambda>_.
         io_bind (await
                    (CreateCapacityDelegationAuthSig
                       (if truthy (expiry params) then expiry params else None)
                       sg
                       (creditsTokenId params)
                       (case delegatees params of
                          None \<Rightarrow> None
                        | Some ds \<Rightarrow> if ds \<noteq> [] then Some ds else None))
                    (reply_authsig E)) (\<lambda>capacityDelegationAuthSig.
         priv_setOutput FN_createCreditsDelegationToken
           (Out_AuthSig capacityDelegationAuthSig) (outputId params))))"

definition createCreditsDelegationToken ::
  "env \<Rightarrow> createCreditsDelegationToken_params \<Rightarrow> unit io" where
  "createCreditsDelegationToken E params =
     priv_run E ''Create Credits Delegation Token'' FN_createCreditsDelegationToken
       (createCreditsDelegationToken_action E params)"

record createAccessToken_params = OutputHandler +
  pkpPublicKey :: "string option"
  auth_type :: string
  resources :: "(string \<times> string) list"
  creditsDelegationToken :: "authsig option"
  jsParams :: "jsval option"
  code :: "string option"
  ipfsCid :: "string option"

text \<open>
  The switch in the callback of \<open>params.resources.map\<close>, on the type of a resource (a
  pair of its type and its request): the resource class and the ability of each case.
  The callback constructs the resource; in the default case it throws. An array map
  stops at the first callback that throws.
\<close>

definition resource_case :: "string \<times> string \<Rightarrow> (lit_resource \<times> lit_ability) option" where
  "resource_case resource =
     (case resource of (t, request) \<Rightarrow>
        if t = ''access-control-condition-signing''
        then Some (LitAccessControlConditionResource request, AccessControlConditionSigning)
        else if t = ''access-control-condition-decryption''
        then Some (LitAccessControlConditionResource request, AccessControlConditionDecryption)
        else if t = ''lit-action-execution''
        then Some (LitActionResource request, LitActionExecution)
        else if t = ''rate-limit-increase-auth''
        then Some (LitRLIResource request, RateLimitIncreaseAuth)
        else if t = ''pkp-signing''
        then Some (LitPKPResource request, PKPSigning)
        else None)"

definition resource_ability :: "string \<times> string \<Rightarrow> (lit_resource \<times> lit_ability) io" where
  "resource_ability resource =
     (case resource_case resource of
        Some (r, ability) \<Rightarrow> io_bind (new_object (New_resource r)) (\<lambda>_. io_return (r, ability))
      | None \<Rightarrow> io_throw (Error (''Resource type '' @ fst resource @ '' is not supported'')))"

fun array_map :: "('a \<Rightarrow> 'b io) \<Rightarrow> 'a list \<Rightarrow> 'b list io" where
  "array_map f [] = io_return []"
| "array_map f (x # xs) =
     io_bind (f x) (\<lambda>y.
     io_bind (array_map f xs) (\<lambda>ys.
     io_return (y # ys)))"

definition createAccessToken_action ::
  "env \<Rightarrow> createAccessToken_params \<Rightarrow> string \<Rightarrow> (lit_resource \<times> lit_ability) list \<Rightarrow> unit io"
  where
  "createAccessToken_action E params pkpPublicKey' requestAbilityRequests =
     (if auth_type params = ''custom_auth'' then
        (case creditsDelegationToken params of
           None \<Rightarrow> io_throw (Error ''creditsDelegationToken is required'')
         | Some token \<Rightarrow>
             if \<not> truthy (code params) \<and> \<not> truthy (ipfsCid params)
             then io_throw (Error ''Either code or ipfsCid must be provided'')
             else
               io_bind (this_litNodeClient E ''getLitActionSessionSigs'') (\<lambda>_.
               io_bind (await
                          (GetLitActionSessionSigs pkpPublicKey'
                             requestAbilityRequests
                             (case code params of
                                None \<Rightarrow> LitActionIpfsId (ipfsCid params)
                              | Some c \<Rightarrow>
                                  if c \<noteq> [] \<and> \<not> truthy (ipfsCid params)
                                  then LitActionCode (base64 E c)
                                  else LitActionIpfsId (ipfsCid params))
                             (jsParams params)
                             [token])
                          (reply_sigs E)) (\<lambda>sessionSigs.
               priv_setOutput FN_createAccessToken (Out_SessionSigs sessionSigs)
                 (outputId params))))
      else io_throw (Error ''Type not supported yet''))"

text \<open>\<open>_pkpPublicKey\<close>: the key without a leading 0x.\<close>

definition without_0x :: "string option \<Rightarrow> string" where
  "without_0x key =
     (case key of
        None \<Rightarrow> []
      | Some pk \<Rightarrow> if take 2 pk = ''0x'' then drop 2 pk else pk)"

definition createAccessToken :: "env \<Rightarrow> createAccessToken_params \<Rightarrow> unit io" where
  "createAccessToken E params =
     (if auth_type params = ''eoa'' \<or> auth_type params = ''native_auth''
      then io_throw (Error ''Native auth and EOA are not supported yet'')
      else
        io_bind
          (io_when (auth_type params = ''custom_auth'')
             (if \<not> truthy (code params) \<and> \<not> truthy (ipfsCid params)
              then io_throw (Error ''Either code or ipfsCid must be provided'')
              else if truthy (code params) \<and> truthy (ipfsCid params)
              then io_throw
                     (Error ''Only one of code or ipfsCid should be provided, not both'')
              else if jsParams params = None
              then io_throw (Error ''jsParams is required'')
              else io_return ())) (\<lambda>_.
        if \<not> truthy (pkpPublicKey params)
        then io_throw (Error ''pkpPublicKey is required'')
        else if resources params = []
        then io_throw (Error ''resources is required'')
        else
          io_bind (array_map resource_ability (resources params)) (\<lambda>requestAbilityRequests.
          priv_run E ''Create Access Token'' FN_createAccessToken
            (createAccessToken_action E params (without_0x (pkpPublicKey params))
               requestAbilityRequests))))"

record grant_params = OutputHandler +
  pkpTokenId :: string
  scopes :: "string list"

record grantAuthMethodToUsePKP_params = grant_params +
  authMethodId :: string
  authMethodType :: int

record grantIPFSCIDtoUsePKP_params = grant_params +
  grant_ipfsCid :: string

definition grantAuthMethodToUsePKP_action ::
  "env \<Rightarrow> grantAuthMethodToUsePKP_params \<Rightarrow> int list \<Rightarrow> unit io" where
  "grantAuthMethodToUsePKP_action E params scopes' =
     io_bind (this_litContracts E ''addPermittedAuthMethod'') (\<lambda>_.
     io_bind (await
                (AddPermittedAuthMethod (pkpTokenId params) (authMethodId params)
                   (authMethodType params) scopes')
                (reply_string E)) (\<lambda>transactionHash.
     io_bind io_get (\<lambda>this.
     io_bind (io_lift (blockExplorerUrl E (network this))) (\<lambda>explorerUrl.
     let hashOnExplorer = explorerUrl @ ''tx/'' @ transactionHash in
     priv_setOutput FN_grantAuthMethodToUsePKP
       (Out_TX \<lparr>hash = transactionHash, explorer = hashOnExplorer\<rparr>)
       (outputId params)))))"

definition grantAuthMethodToUsePKP :: "env \<Rightarrow> grantAuthMethodToUsePKP_params \<Rightarrow> unit io" where
  "grantAuthMethodToUsePKP E params =
     (let scopes' = map (\<lambda>scope. if scope = ''no_permission'' then 0
                                 else if scope = ''sign_anything'' then 1 else 2)
                      (scopes params)
      in
      priv_run E ''Grant Auth Method'' FN_grantAuthMethodToUsePKP
        (grantAuthMethodToUsePKP_action E params scopes'))"

definition grantIPFSCIDtoUsePKP_action ::
  "env \<Rightarrow> grantIPFSCIDtoUsePKP_params \<Rightarrow> int list \<Rightarrow> unit io" where
  "grantIPFSCIDtoUsePKP_action E params scopes' =
     io_bind (this_litContracts E ''addPermittedAction'') (\<lambda>_.
     io_bind (await
                (AddPermittedAction (pkpTokenId params) (grant_ipfsCid params) scopes')
                (reply_string E)) (\<lambda>transactionHash.
     io_bind io_get (\<lambda>this.
     io_bind (io_lift (blockExplorerUrl E (network this))) (\<lambda>explorerUrl.
     let hashOnExplorer = explorerUrl @ ''tx/'' @ transactionHash in
     priv_setOutput FN_grantIPFSCIDtoUsePKP
       (Out_TX \<lparr>hash = transactionHash, explorer = hashOnExplorer\<rparr>)
       (outputId params)))))"

definition grantIPFSCIDtoUsePKP :: "env \<Rightarrow> grantIPFSCIDtoUsePKP_params \<Rightarrow> unit io" where
  "grantIPFSCIDtoUsePKP E params =
     (let scopes' = map (\<lambda>scope. if scope = ''no_permission'' then 0
                                 else if scope = ''sign_anything'' then 1 else 2)
                      (scopes params)
      in
      priv_run E ''Grant IPFS CID'' FN_grantIPFSCIDtoUsePKP
        (grantIPFSCIDtoUsePKP_action E params scopes'))"

text \<open>runJs has an empty body.\<close>

definition runJs :: "session_sigs \<Rightarrow> unit io" where
  "runJs accessTokens = io_return ()"

subsection \<open>The operations, as one type\<close>

text \<open>
  The nine methods that run a step through \<open>_run\<close>, each with the display name and the
  function name it passes.
\<close>

datatype operation =
    ConnectToLitNodeClient OutputHandler
  | ConnectToLitContracts OutputHandler
  | MintPKP mintPKP_params
  | MintCreditsNFT mintCreditsNFT_params
  | CreateCreditsDelegationToken createCreditsDelegationToken_params
  | CreateAccessToken createAccessToken_params
  | GrantAuthMethodToUsePKP grantAuthMethodToUsePKP_params
  | GrantIPFSCIDtoUsePKP grantIPFSCIDtoUsePKP_params
  | GetPkps

datatype returned = This | Pkps "pkp_info list"

definition returning_this :: "unit io \<Rightarrow> returned io" where
  "returning_this m = io_bind m (\<lambda>_. io_return This)"

fun perform :: "env \<Rightarrow> operation \<Rightarrow> returned io" where
  "perform E (ConnectToLitNodeClient p) = returning_this (connectToLitNodeClient E p)"
| "perform E (ConnectToLitContracts p) = returning_this (connectToLitContracts E p)"
| "perform E (MintPKP p) = returning_this (mintPKP E p)"
| "perform E (MintCreditsNFT p) = returning_this (mintCreditsNFT E p)"
| "perform E (CreateCreditsDelegationToken p) =
     returning_this (createCreditsDelegationToken E p)"
| "perform E (CreateAccessToken p) = returning_this (createAccessToken E p)"
| "perform E (GrantAuthMethodToUsePKP p) = returning_this (grantAuthMethodToUsePKP E p)"
| "perform E (GrantIPFSCIDtoUsePKP p) = returning_this (grantIPFSCIDtoUsePKP E p)"
| "perform E GetPkps = io_bind (getPkps E) (\<lambda>res. io_return (Pkps res))"

fun opName :: "operation \<Rightarrow> string" where
  "opName (ConnectToLitNodeClient p) = ''LitNodeClient connection''"
| "opName (ConnectToLitContracts p) = ''LitContracts connection''"
| "opName (MintPKP p) = ''Mint PKP''"
| "opName (MintCreditsNFT p) = ''Mint Credits Token''"
| "opName (CreateCreditsDelegationToken p) = ''Create Credits Delegation Token''"
| "opName (CreateAccessToken p) = ''Create Access Token''"
| "opName (GrantAuthMethodToUsePKP p) = ''Grant Auth Method''"
| "opName (GrantIPFSCIDtoUsePKP p) = ''Grant IPFS CID''"
| "opName GetPkps = ''Get PKPs''"

fun fnName :: "operation \<Rightarrow> fn_name" where
  "fnName (ConnectToLitNodeClient p) = FN_connectToLitNodeClient"
| "fnName (ConnectToLitContracts p) = FN_connectToLitContracts"
| "fnName (MintPKP p) = FN_mintPKP"
| "fnName (MintCreditsNFT p) = FN_mintCreditsNFT"
| "fnName (CreateCreditsDelegationToken p) = FN_createCreditsDelegationToken"
| "fnName (CreateAccessToken p) = FN_createAccessToken"
| "fnName (GrantAuthMethodToUsePKP p) = FN_grantAuthMethodToUsePKP"
| "fnName (GrantIPFSCIDtoUsePKP p) = FN_grantIPFSCIDtoUsePKP"
| "fnName GetPkps = FN_getPkps"

fun outputId_of :: "operation \<Rightarrow> string option" where
  "outputId_of (ConnectToLitNodeClient p) = outputId p"
| "outputId_of (ConnectToLitContracts p) = outputId p"
| "outputId_of (MintPKP p) = outputId p"
| "outputId_of (MintCreditsNFT p) = outputId p"
| "outputId_of (CreateCreditsDelegationToken p) = outputId p"
| "outputId_of (CreateAccessToken p) = outputId p"
| "outputId_of (GrantAuthMethodToUsePKP p) = outputId p"
| "outputId_of (GrantIPFSCIDtoUsePKP p) = outputId p"
| "outputId_of GetPkps = None"

text \<open>
  The action an operation hands to the runner, with the value the operation returns, and
  the instance as the runner finds it: createAccessToken has constructed its resources
  by then.
\<close>

fun action_of :: "env \<Rightarrow> operation \<Rightarrow> returned io" where
  "action_of E (ConnectToLitNodeClient p) = returning_this (connectToLitNodeClient_action E p)"
| "action_of E (ConnectToLitContracts p) = returning_this (connectToLitContracts_action E p)"
| "action_of E (MintPKP p) = returning_this (mintPKP_action E p)"
| "action_of E (MintCreditsNFT p) = returning_this (mintCreditsNFT_action E p)"
| "action_of E (CreateCreditsDelegationToken p) =
     returning_this (createCreditsDelegationToken_action E p)"
| "action_of E (CreateAccessToken p) =
     returning_this
       (createAccessToken_action E p (without_0x (pkpPublicKey p))
          (List.map_filter resource_case (resources p)))"
| "action_of E (GrantAuthMethodToUsePKP p) =
     returning_this
       (grantAuthMethodToUsePKP_action E p
          (map (\<lambda>scope. if scope = ''no_permission'' then 0
                       else if scope = ''sign_anything'' then 1 else 2)
             (scopes p)))"
| "action_of E (GrantIPFSCIDtoUsePKP p) =
     returning_this
       (grantIPFSCIDtoUsePKP_action E p
          (map (\<lambda>scope. if scope = ''no_permission'' then 0
                       else if scope = ''sign_anything'' then 1 else 2)
             (scopes p)))"
| "action_of E GetPkps = io_bind (getPkps_action E) (\<lambda>res. io_return (Pkps res))"

fun entering :: "operation \<Rightarrow> bulkie \<Rightarrow> bulkie" where
  "entering (CreateAccessToken p) this =
     this\<lparr>events := events this @
              map (\<lambda>ra. Called (New_resource (fst ra)))
                (List.map_filter resource_case (resources p))\<rparr>"
| "entering op this = this"

section \<open>Traces of vendor calls\<close>

text \<open>
  A trace is sequential when every issued call is resumed before anything else happens:
  each asynchronous call is awaited to completion before the next call is made.
\<close>

fun sequential :: "event list \<Rightarrow> bool" where
  "sequential [] = True"
| "sequential (Called c # tr) = sequential tr"
| "sequential (Issue c # Settle c' # tr) = (c = c' \<and> sequential tr)"
| "sequential (Issue c # tr) = False"
| "sequential (Settle c # tr) = False"

text \<open>
  The largest number of asynchronous calls in flight at any point of a trace that starts
  with n calls in flight.
\<close>

fun peak_in_flight :: "nat \<Rightarrow> event list \<Rightarrow> nat" where
  "peak_in_flight n [] = n"
| "peak_in_flight n (Called c # tr) = peak_in_flight n tr"
| "peak_in_flight n (Issue c # tr) = max (Suc n) (peak_in_flight (Suc n) tr)"
| "peak_in_flight n (Settle c # tr) = max n (peak_in_flight (n - 1) tr)"

section \<open>A concrete network and two instances\<close>

text \<open>
  A network that answers every call, and one whose string-valued calls fail. They give the
  general statements below an input to run on.
\<close>

definition demo_env :: env where
  "demo_env =
     \<lparr>now = (\<lambda>n. 1000 + 250 * int n),
      window = None,
      RPC_URL_BY_NETWORK = (\<lambda>n. if n = ''datil'' then Some ''https://rpc.example'' else None),
      blockExplorerUrl = (\<lambda>n. Inr ''https://explorer.example/''),
      undefined_read = (\<lambda>m. JsError ''TypeError'' (''Cannot read properties of undefined'')),
      null_read = (\<lambda>m. JsError ''TypeError'' (''Cannot read properties of null'')),
      signer_provider = (\<lambda>sg. True),
      parseEther = (\<lambda>a. Inr 1),
      BigNumber_toString = (\<lambda>t. Inr t),
      BigNumber_toHexString = (\<lambda>t. Inr t),
      computeAddress = (\<lambda>k. Inr k),
      base64 = (\<lambda>c. c),
      reply_unit = (\<lambda>n c. Inr ()),
      reply_string = (\<lambda>n c. Inr ''0xabc''),
      reply_strings = (\<lambda>n c. Inr [''1'', ''2'']),
      reply_signer = (\<lambda>n c. Inr (Signer 1)),
      reply_tx = (\<lambda>n c. Inr (Some 0)),
      reply_mint = (\<lambda>n c. Inr \<lparr>tx_hash = ''0x01'', pkp_tokenId = ''0x02'',
                                  pkp_publicKey = ''04'', pkp_ethAddress = ''0x03''\<rparr>),
      reply_authsig = (\<lambda>n c. Inr (AuthSig ''signed'')),
      reply_sigs = (\<lambda>n c. Inr (SessionSigsMap ''sigs''))\<rparr>"

definition failing_env :: env where
  "failing_env = demo_env\<lparr>reply_string := (\<lambda>n c. Inl (Error ''network down''))\<rparr>"

text \<open>
  A network on which sending a transaction fails, and one whose calls without a result
  reject with undefined.
\<close>

definition unfunded_env :: env where
  "unfunded_env = demo_env\<lparr>reply_tx := (\<lambda>n c. Inl (Error ''insufficient funds''))\<rparr>"

definition rejecting_env :: env where
  "rejecting_env = demo_env\<lparr>reply_unit := (\<lambda>n c. Inl JsUndefined)\<rparr>"

text \<open>An instance right after construction, and one with both clients connected.\<close>

definition alice_new :: bulkie where
  "alice_new =
     \<lparr>debug = False, litDebug = False, guides = False, network = ''datil'',
      litNodeClient = None, litContracts = None, signer = Some (Signer 1),
      rpc = Some ''https://rpc.example'', executionTimes = [], outputs = (\<lambda>k. None),
      ticks = 0, events = []\<rparr>"

definition alice :: bulkie where
  "alice =
     alice_new\<lparr>litNodeClient := Some (LitNodeClient ''datil'' False (Some ''https://rpc.example'')),
           litContracts := Some (LitContracts False ''datil'' (Some (Signer 1))
                                  (Some ''https://rpc.example'')),
           executionTimes := [250, 250], ticks := 4\<rparr>"


section \<open>The build script (esbuild.config.ts)\<close>

text \<open>
  Text of the build script is a list of UTF-16 code units, the unit of the regular
  expressions and of JSON.stringify.
\<close>

type_synonym utf16 = "16 word list"

definition units :: "string \<Rightarrow> utf16" where
  "units cs = map of_char cs"

subsection \<open>Regular expressions with the global flag\<close>

text \<open>
  The four patterns of the script are sequences of character classes, each taken once or
  with a greedy \<open>+\<close>. The matcher returns the length of the match that starts at the head
  of the text: under \<open>+\<close> it first tries to take one more unit and only then to go on
  with the rest of the pattern.
\<close>

datatype quantifier = Once | OneOrMore

type_synonym atom = "(16 word \<Rightarrow> bool) \<times> quantifier"

fun match_here :: "atom list \<Rightarrow> utf16 \<Rightarrow> nat option" where
  "match_here [] cs = Some 0"
| "match_here ((cls, q) # re) [] = None"
| "match_here ((cls, Once) # re) (c # cs) =
     (if cls c then map_option Suc (match_here re cs) else None)"
| "match_here ((cls, OneOrMore) # re) (c # cs) =
     (if cls c then
        (case match_here ((cls, OneOrMore) # re) cs of
           Some n \<Rightarrow> Some (Suc n)
         | None \<Rightarrow> map_option Suc (match_here re cs))
      else None)"

text \<open>
  \<open>text.replace(re, replacement)\<close> for a global pattern and a replacement without
  dollar signs: the leftmost match is replaced and the search goes on behind it; after an
  empty match it moves one unit ahead.
\<close>

fun replace :: "atom list \<Rightarrow> utf16 \<Rightarrow> utf16 \<Rightarrow> utf16" where
  "replace re replacement [] = (if match_here re [] = None then [] else replacement)"
| "replace re replacement (c # cs) =
     (case match_here re (c # cs) of
        None \<Rightarrow> c # replace re replacement cs
      | Some 0 \<Rightarrow> replacement @ c # replace re replacement cs
      | Some (Suc n) \<Rightarrow> replacement @ replace re replacement (drop n cs))"

definition literal :: "string \<Rightarrow> atom list" where
  "literal cs = map (\<lambda>c. ((\<lambda>u. u = of_char c), Once)) cs"

text \<open>The classes \<open>\s\<close>, \<open>\w\<close> and \<open>[a-zA-Z]\<close>.\<close>

definition is_space :: "16 word \<Rightarrow> bool" where
  "is_space u \<longleftrightarrow>
     (0x09 \<le> u \<and> u \<le> 0x0D) \<or> u = 0x20 \<or> u = 0xA0 \<or> u = 0x1680 \<or>
     (0x2000 \<le> u \<and> u \<le> 0x200A) \<or> u = 0x2028 \<or> u = 0x2029 \<or> u = 0x202F \<or>
     u = 0x205F \<or> u = 0x3000 \<or> u = 0xFEFF"

definition is_word :: "16 word \<Rightarrow> bool" where
  "is_word u \<longleftrightarrow>
     (0x30 \<le> u \<and> u \<le> 0x39) \<or> (0x41 \<le> u \<and> u \<le> 0x5A) \<or> u = 0x5F \<or>
     (0x61 \<le> u \<and> u \<le> 0x7A)"

definition is_letter :: "16 word \<Rightarrow> bool" where
  "is_letter u \<longleftrightarrow> (0x41 \<le> u \<and> u \<le> 0x5A) \<or> (0x61 \<le> u \<and> u \<le> 0x7A)"

definition re_require_ethers :: "atom list" where
  \<open>re_require_ethers = literal ''var import_ethers = __require("ethers");''\<close>

definition re_import_ethers_dot :: "atom list" where
  "re_import_ethers_dot = literal ''import_ethers.''"

definition re_minified_require :: "atom list" where
  \<open>re_minified_require =
     literal ''var'' @ [(is_space, OneOrMore), (is_word, OneOrMore)] @ literal ''='' @
     [(is_word, OneOrMore)] @ literal ''("ethers");''\<close>

definition re_member_ethers :: "atom list" where
  "re_member_ethers = [(is_letter, Once)] @ literal ''.ethers''"

definition strip_ethers :: "utf16 \<Rightarrow> utf16" where
  "strip_ethers content =
     (let content = replace re_import_ethers_dot [] (replace re_require_ethers [] content);
          content = replace re_member_ethers (units ''ethers'')
                      (replace re_minified_require [] content)
      in content)"

subsection \<open>JSON.stringify of a string\<close>

definition hex_digit :: "16 word \<Rightarrow> 16 word" where
  "hex_digit d = (if d < 10 then 0x30 + d else 0x61 + (d - 10))"

definition unicode_escape :: "16 word \<Rightarrow> utf16" where
  "unicode_escape u =
     [0x5C, 0x75] @
     [hex_digit (drop_bit 12 u), hex_digit (take_bit 4 (drop_bit 8 u)),
      hex_digit (take_bit 4 (drop_bit 4 u)), hex_digit (take_bit 4 u)]"

definition is_leading_surrogate :: "16 word \<Rightarrow> bool" where
  "is_leading_surrogate u \<longleftrightarrow> 0xD800 \<le> u \<and> u \<le> 0xDBFF"

definition is_trailing_surrogate :: "16 word \<Rightarrow> bool" where
  "is_trailing_surrogate u \<longleftrightarrow> 0xDC00 \<le> u \<and> u \<le> 0xDFFF"

definition quote_unit :: "16 word \<Rightarrow> utf16" where
  "quote_unit u =
     (if u = 0x08 then [0x5C, 0x62]
      else if u = 0x09 then [0x5C, 0x74]
      else if u = 0x0A then [0x5C, 0x6E]
      else if u = 0x0C then [0x5C, 0x66]
      else if u = 0x0D then [0x5C, 0x72]
      else if u = 0x22 then [0x5C, 0x22]
      else if u = 0x5C then [0x5C, 0x5C]
      else if u < 0x20 \<or> is_leading_surrogate u \<or> is_trailing_surrogate u
      then unicode_escape u
      else [u])"

text \<open>A surrogate pair is one code point and is copied; a lone surrogate is escaped.\<close>

fun quote_units :: "utf16 \<Rightarrow> utf16" where
  "quote_units [] = []"
| "quote_units [u] = quote_unit u"
| "quote_units (u # v # us) =
     (if is_leading_surrogate u \<and> is_trailing_surrogate v then u # v # quote_units us
      else quote_unit u @ quote_units (v # us))"

definition JSON_stringify :: "utf16 \<Rightarrow> utf16" where
  "JSON_stringify content = [0x22] @ quote_units content @ [0x22]"

subsection \<open>The plugin\<close>

definition generated_header :: utf16 where
  \<open>generated_header =
     units ''/**'' @ [0x0A] @
     units '' * DO NOT EDIT THIS FILE. IT IS GENERATED ON BUILD. RUN `yarn generate-lit-actions` IN THE ROOT DIRECTORY TO UPDATE THIS FILE.'' @ [0x0A] @
     units '' * '' @ [0x0A] @
     units '' * @type { string } code - Lit Action code. You want to use the content in the "code" constant and NOT the content of this file.'' @ [0x0A] @
     units '' * '' @ [0x0A] @
     units '' */'' @ [0x0A]\<close>

definition wrappedContent :: "utf16 \<Rightarrow> utf16" where
  "wrappedContent content =
     generated_header @ units ''export const code = '' @ JSON_stringify content @
     units '';'' @ [0x0A]"

record output_file =
  path :: string
  text_of :: utf16

text \<open>
  The onEnd callback: the files it writes, as pairs of a path and the content. The
  resolution of the path against the working directory is a parameter.
\<close>

definition onEnd ::
  "(string \<Rightarrow> string) \<Rightarrow> string list \<Rightarrow> output_file list \<Rightarrow> (string \<times> utf16) list" where
  "onEnd resolve errors outputFiles =
     (if errors \<noteq> [] then []
      else map (\<lambda>outputFile.
                  (resolve (path outputFile),
                   wrappedContent (strip_ethers (text_of outputFile))))
             outputFiles)"

subsection \<open>The post-processing as the specification words it\<close>

text \<open>
  Replacing every match of a pattern, from left to right, where a pattern is given by
  the length of its match at the head of a text.
\<close>

fun replace_matches :: "(utf16 \<Rightarrow> nat option) \<Rightarrow> utf16 \<Rightarrow> utf16 \<Rightarrow> utf16" where
  "replace_matches m replacement [] = []"
| "replace_matches m replacement (c # cs) =
     (case m (c # cs) of
        Some (Suc n) \<Rightarrow> replacement @ replace_matches m replacement (drop n cs)
      | _ \<Rightarrow> c # replace_matches m replacement cs)"

text \<open>An occurrence of a fixed text.\<close>

definition occurrence :: "utf16 \<Rightarrow> utf16 \<Rightarrow> nat option" where
  "occurrence w cs = (if prefix w cs then Some (length w) else None)"

text \<open>
  The characters the description speaks of: white space (the space characters and line
  terminators of the language), the characters of a word (letters, digits and the
  underscore) and the letters.
\<close>

definition white_space :: "16 word \<Rightarrow> bool" where
  "white_space u \<longleftrightarrow>
     u \<in> {0x09, 0x0A, 0x0B, 0x0C, 0x0D, 0x20, 0xA0, 0x1680, 0x2000, 0x2001, 0x2002, 0x2003,
          0x2004, 0x2005, 0x2006, 0x2007, 0x2008, 0x2009, 0x200A, 0x2028, 0x2029, 0x202F,
          0x205F, 0x3000, 0xFEFF}"

definition word_character :: "16 word \<Rightarrow> bool" where
  "word_character u \<longleftrightarrow>
     u \<in> set (units ''abcdefghijklmnopqrstuvwxyzABCDEFGHIJKLMNOPQRSTUVWXYZ0123456789_'')"

definition ascii_letter :: "16 word \<Rightarrow> bool" where
  "ascii_letter u \<longleftrightarrow>
     u \<in> set (units ''abcdefghijklmnopqrstuvwxyzABCDEFGHIJKLMNOPQRSTUVWXYZ'')"

text \<open>
  The minified declaration: \<open>var\<close>, white space, a run of word characters,
  \<open>=\<close>, another such run and \<open>("ethers");\<close>.
\<close>

definition var_declaration :: "utf16 \<Rightarrow> nat option" where
  \<open>var_declaration cs =
     (let r1 = drop 3 cs;
          ws = takeWhile white_space r1; r2 = dropWhile white_space r1;
          id1 = takeWhile word_character r2; r3 = dropWhile word_character r2;
          r4 = drop 1 r3;
          id2 = takeWhile word_character r4; r5 = dropWhile word_character r4
      in if prefix (units ''var'') cs \<and> ws \<noteq> [] \<and> id1 \<noteq> [] \<and> prefix (units ''='') r3 \<and>
            id2 \<noteq> [] \<and> prefix (units ''("ethers");'') r5
         then Some (3 + length ws + length id1 + 1 + length id2 + 11)
         else None)\<close>

text \<open>A single letter followed by \<open>.ethers\<close>.\<close>

definition letter_dot_ethers :: "utf16 \<Rightarrow> nat option" where
  "letter_dot_ethers cs =
     (case cs of
        [] \<Rightarrow> None
      | c # r \<Rightarrow> if ascii_letter c \<and> prefix (units ''.ethers'') r then Some 8 else None)"

definition spec_transform :: "utf16 \<Rightarrow> utf16" where
  \<open>spec_transform t =
     replace_matches letter_dot_ethers (units ''ethers'')
       (replace_matches var_declaration []
          (replace_matches (occurrence (units ''import_ethers.'')) []
             (replace_matches
                (occurrence (units ''var import_ethers = __require("ethers");'')) [] t)))\<close>


text \<open>
  The same declaration with the two names read as identifiers of the language: a letter,
  a dollar sign or an underscore, followed by letters, digits, dollar signs and
  underscores (the identifiers of ASCII text), and one space after \<open>var\<close>.
\<close>

definition is_identifier_start :: "16 word \<Rightarrow> bool" where
  "is_identifier_start u \<longleftrightarrow> ascii_letter u \<or> u = 0x24 \<or> u = 0x5F"

definition is_identifier_part :: "16 word \<Rightarrow> bool" where
  "is_identifier_part u \<longleftrightarrow> is_identifier_start u \<or> (0x30 \<le> u \<and> u \<le> 0x39)"

definition identifier_length :: "utf16 \<Rightarrow> nat" where
  "identifier_length cs =
     (case cs of
        [] \<Rightarrow> 0
      | c # r \<Rightarrow> if is_identifier_start c then Suc (length (takeWhile is_identifier_part r))
                 else 0)"

definition identifier_declaration :: "utf16 \<Rightarrow> nat option" where
  \<open>identifier_declaration cs =
     (let r1 = drop 4 cs;
          n1 = identifier_length r1; r2 = drop n1 r1;
          r3 = drop 1 r2;
          n2 = identifier_length r3; r4 = drop n2 r3
      in if prefix (units ''var '') cs \<and> 0 < n1 \<and> prefix (units ''='') r2 \<and> 0 < n2 \<and>
            prefix (units ''("ethers");'') r4
         then Some (4 + n1 + 1 + n2 + 11)
         else None)\<close>

definition identifier_transform :: "utf16 \<Rightarrow> utf16" where
  \<open>identifier_transform t =
     replace_matches letter_dot_ethers (units ''ethers'')
       (replace_matches identifier_declaration []
          (replace_matches (occurrence (units ''import_ethers.'')) []
             (replace_matches
                (occurrence (units ''var import_ethers = __require("ethers");'')) [] t)))\<close>

subsection \<open>Reading a JSON string\<close>

text \<open>
  The string grammar of JSON (RFC 8259): a quotation mark, then characters that are
  either a code unit from U+0020 on other than the quotation mark and the reverse
  solidus, or an escape (a reverse solidus followed by a quotation mark, a reverse
  solidus, a solidus, one of the letters b, f, n, r, t, or the letter u and four
  hexadecimal digits), then a quotation mark. The value of the string is the text it
  denotes.
\<close>

definition hex_value :: "16 word \<Rightarrow> 16 word option" where
  "hex_value d =
     (if 0x30 \<le> d \<and> d \<le> 0x39 then Some (d - 0x30)
      else if 0x61 \<le> d \<and> d \<le> 0x66 then Some (d - 0x61 + 10)
      else if 0x41 \<le> d \<and> d \<le> 0x46 then Some (d - 0x41 + 10)
      else None)"

definition escaped_unit :: "16 word \<Rightarrow> 16 word option" where
  "escaped_unit e =
     (if e = 0x22 then Some 0x22
      else if e = 0x5C then Some 0x5C
      else if e = 0x2F then Some 0x2F
      else if e = 0x62 then Some 0x08
      else if e = 0x66 then Some 0x0C
      else if e = 0x6E then Some 0x0A
      else if e = 0x72 then Some 0x0D
      else if e = 0x74 then Some 0x09
      else None)"

definition four_hex :: "16 word \<Rightarrow> 16 word \<Rightarrow> 16 word \<Rightarrow> 16 word \<Rightarrow> 16 word option" where
  "four_hex a b c d =
     (case (hex_value a, hex_value b, hex_value c, hex_value d) of
        (Some h3, Some h2, Some h1, Some h0) \<Rightarrow>
          Some (push_bit 12 h3 OR push_bit 8 h2 OR push_bit 4 h1 OR h0)
      | _ \<Rightarrow> None)"

fun string_value :: "utf16 \<Rightarrow> utf16 option" where
  "string_value [] = Some []"
| "string_value (c # cs) =
     (if c = 0x5C then
        (case cs of
           [] \<Rightarrow> None
         | e # r \<Rightarrow>
             if e = 0x75 then
               (case r of
                  a # b # c' # d # r' \<Rightarrow>
                    (case four_hex a b c' d of
                       None \<Rightarrow> None
                     | Some u \<Rightarrow> map_option (\<lambda>us. u # us) (string_value r'))
                | _ \<Rightarrow> None)
             else
               (case escaped_unit e of
                  None \<Rightarrow> None
                | Some u \<Rightarrow> map_option (\<lambda>us. u # us) (string_value r)))
      else if c = 0x22 \<or> c < 0x20 then None
      else map_option (\<lambda>us. c # us) (string_value cs))"

definition JSON_string_value :: "utf16 \<Rightarrow> utf16 option" where
  "JSON_string_value j =
     (case j of
        [] \<Rightarrow> None
      | q # r \<Rightarrow>
          if q = 0x22 \<and> r \<noteq> [] \<and> last r = 0x22 then string_value (butlast r) else None)"


definition mint_params :: mintPKP_params where
  "mint_params = \<lparr>outputId = None, selfFund = Some True, amountInEth = None\<rparr>"

definition credits_params :: mintCreditsNFT_params where
  "credits_params =
     \<lparr>outputId = None, requestsPerKilosecond = 200, daysUntilUTCMidnightExpiration = 2\<rparr>"

definition grant_auth_params :: grantAuthMethodToUsePKP_params where
  "grant_auth_params =
     \<lparr>outputId = None, pkpTokenId = ''0x02'',
      scopes = [''sign_anything'', ''no_permission'', ''eip_191_personal_sign''],
      authMethodId = ''app-id-xxx:user-id-yyy'', authMethodType = 918232\<rparr>"

definition grant_ipfs_params :: grantIPFSCIDtoUsePKP_params where
  "grant_ipfs_params =
     \<lparr>outputId = None, pkpTokenId = ''0x02'',
      scopes = [''sign_anything'', ''no_permission'', ''eip_191_personal_sign''],
      grant_ipfsCid = ''QmExample''\<rparr>"

definition token_params :: createAccessToken_params where
  "token_params =
     \<lparr>outputId = None, pkpPublicKey = Some ''0x04'', auth_type = ''custom_auth'',
      resources = [(''pkp-signing'', ''*'')], creditsDelegationToken = Some (AuthSig ''signed''),
      jsParams = Some (JsVal ''{}''), code = None, ipfsCid = None\<rparr>"

section \<open>Properties of methods\<close>

text \<open>A method keeps an observation of the instance when no run of it changes it.\<close>

definition keeps :: "(bulkie \<Rightarrow> 'f) \<Rightarrow> 'a io \<Rightarrow> bool" where
  "keeps f m \<longleftrightarrow> (\<forall>this. f (snd (m this)) = f this)"



text \<open>A method whose vendor calls are sequential, whatever the instance.\<close>

definition trace_sequential :: "'a io \<Rightarrow> bool" where
  "trace_sequential m \<longleftrightarrow>
     (\<forall>this. \<exists>tr. events (snd (m this)) = events this @ tr \<and> sequential tr)"

text \<open>
  A method that writes the cache exactly once, under the given key, when it returns, and
  not at all when it throws.
\<close>

definition stores_under :: "string \<Rightarrow> 'a io \<Rightarrow> bool" where
  "stores_under key m \<longleftrightarrow>
     (\<forall>this. case m this of
                (Inl e, this') \<Rightarrow> outputs this' = outputs this
              | (Inr x, this') \<Rightarrow> (\<exists>v. outputs this' = (outputs this)(key \<mapsto> v)))"

text \<open>
  The errors an operation throws in the validation of its parameters, before it enters
  priv_run.
\<close>

definition validation_errors :: "operation \<Rightarrow> js_error set" where
  "validation_errors op =
     (case op of
        MintCreditsNFT p \<Rightarrow>
          {Error ''requestsPerKilosecond and daysUntilUTCMidnightExpiration are required''}
      | CreateAccessToken p \<Rightarrow>
          {Error ''Native auth and EOA are not supported yet'',
           Error ''Either code or ipfsCid must be provided'',
           Error ''Only one of code or ipfsCid should be provided, not both'',
           Error ''jsParams is required'',
           Error ''pkpPublicKey is required'',
           Error ''resources is required''} \<union>
          (\<lambda>r. Error (''Resource type '' @ fst r @ '' is not supported'')) ` set (resources p)
      | _ \<Rightarrow> {})"



text \<open>A method that throws nothing but the given errors.\<close>

definition throws_only :: "js_error set \<Rightarrow> 'a io \<Rightarrow> bool" where
  "throws_only A m \<longleftrightarrow> (\<forall>this e this'. m this = (Inl e, this') \<longrightarrow> e \<in> A)"

text \<open>The numbering of the scopes as the specification gives it.\<close>

definition scope_code :: "string \<Rightarrow> int" where
  "scope_code scope =
     (if scope = ''no_permission'' then 0 else if scope = ''sign_anything'' then 1 else 2)"

text \<open>
  A minified bundle, as the bundler emits it for a snippet that uses ethers; its second
  line holds a string literal.
\<close>

definition minified_bundle :: utf16 where
  \<open>minified_bundle =
     units ''var t=o("ethers");go(t.ethers.utils);'' @ [0x0A] @
     units ''log("a'' @ [0x5C] @ units ''b");''\<close>

section \<open>Lemmas about the combinators\<close>

lemma io_simps:
  "io_return x s = (Inr x, s)" "io_throw e s = (Inl e, s)" "io_get s = (Inr s, s)"
  "io_modify f s = (Inr (), f s)" "io_lift r s = (r, s)"
  by (simp_all add: io_return_def io_throw_def io_get_def io_modify_def io_lift_def)

lemma io_bind_Inr: "m s = (Inr x, s') \<Longrightarrow> io_bind m f s = f x s'"
  by (simp add: io_bind_def)

lemma io_bind_Inl: "m s = (Inl e, s') \<Longrightarrow> io_bind m f s = (Inl e, s')"
  by (simp add: io_bind_def)

lemma io_bind_cases:
  "io_bind m f s = (case m s of (Inl e, s') \<Rightarrow> (Inl e, s') | (Inr x, s') \<Rightarrow> f x s')"
  by (simp add: io_bind_def)

subsection \<open>keeps\<close>

lemma keeps_return: "keeps f (io_return x)" and keeps_throw: "keeps f (io_throw e)"
  and keeps_get: "keeps f io_get" and keeps_lift: "keeps f (io_lift r)"
  by (simp_all add: keeps_def io_simps)

lemma keeps_bind: "keeps f m \<Longrightarrow> (\<And>x. keeps f (k x)) \<Longrightarrow> keeps f (io_bind m k)"
  unfolding keeps_def io_bind_def
  by (auto split: prod.splits sum.splits) (metis snd_conv)+

lemma keeps_catch: "keeps f m \<Longrightarrow> (\<And>e. keeps f (h e)) \<Longrightarrow> keeps f (io_catch m h)"
  unfolding keeps_def io_catch_def
  by (auto split: prod.splits sum.splits) (metis snd_conv)+

lemma keeps_modify: "(\<And>s. f (g s) = f s) \<Longrightarrow> keeps f (io_modify g)"
  by (simp add: keeps_def io_simps)

lemma keeps_when: "keeps f m \<Longrightarrow> keeps f (io_when b m)"
  by (simp add: io_when_def keeps_return)

lemma keeps_calls:
  assumes "\<And>s ev. f (s\<lparr>events := ev\<rparr>) = f s"
  shows "keeps f (await c r)" and "keeps f (call c r)" and "keeps f (new_object c)"
  using assms by (simp_all add: keeps_def await_def call_def new_object_def)


lemma keeps_if: "(b \<Longrightarrow> keeps f m) \<Longrightarrow> (\<not> b \<Longrightarrow> keeps f n) \<Longrightarrow> keeps f (if b then m else n)"
  by simp

lemma keeps_option:
  "keeps f n \<Longrightarrow> (\<And>x. keeps f (k x)) \<Longrightarrow> keeps f (case v of None \<Rightarrow> n | Some x \<Rightarrow> k x)"
  by (cases v) simp_all

lemma keeps_prod:
  "(\<And>a b. keeps f (k a b)) \<Longrightarrow> keeps f (case p of (a, b) \<Rightarrow> k a b)"
  by (cases p) simp

lemma keeps_array_map: "(\<And>x. keeps f (g x)) \<Longrightarrow> keeps f (array_map g xs)"
  by (induction xs) (simp_all add: keeps_return keeps_bind)

lemma keeps_Date_now: "(\<And>s n. f (s\<lparr>ticks := n\<rparr>) = f s) \<Longrightarrow> keeps f (Date_now E)"
  by (simp add: keeps_def Date_now_def)

lemma keeps_switch_from:
  "list_all (\<lambda>c. keeps f (fst (snd c))) cs \<Longrightarrow> keeps f (switch_from cs)"
proof (induction cs)
  case Nil
  then show ?case by (simp add: keeps_return)
next
  case (Cons c cs)
  obtain l b brk where c: "c = (l, b, brk)" by (cases c)
  have b: "keeps f b" and rest: "keeps f (switch_from cs)"
    using Cons c by simp_all
  show ?case
    unfolding c switch_from.simps
    by (intro keeps_bind b keeps_if keeps_return rest)
qed

lemma keeps_switch:
  "list_all (\<lambda>c. keeps f (fst (snd c))) cs \<Longrightarrow> keeps f (switch v cs)"
proof (induction cs)
  case Nil
  then show ?case by (simp add: keeps_return)
next
  case (Cons c cs)
  obtain l b brk where c: "c = (l, b, brk)" by (cases c)
  have here: "keeps f (switch_from ((l, b, brk) # cs))"
    using Cons.prems c by (intro keeps_switch_from) simp
  have rest: "keeps f (switch v cs)"
    using Cons by simp
  show ?case
    unfolding c switch.simps by (intro keeps_if here rest)
qed

lemma keeps_require:
  "keeps f require_network" "keeps f require_litNodeClient" "keeps f require_litContracts"
  "keeps f require_signer"
  unfolding require_network_def require_litNodeClient_def require_litContracts_def
    require_signer_def
  by (intro keeps_bind keeps_get keeps_if keeps_throw keeps_return)+

lemma keeps_checkRequirements: "keeps f (priv_checkRequirements fn)"
  unfolding priv_checkRequirements_def
  by (rule keeps_switch) (simp add: keeps_bind keeps_require)

lemma checkRequirements_state: "snd (priv_checkRequirements fn s) = s"
  using keeps_checkRequirements[of "\<lambda>s. s" fn] by (simp add: keeps_def)

lemma priv_run_eq:
  "priv_run E name fn action s =
     (case io_bind (priv_checkRequirements fn) (\<lambda>_. action) (s\<lparr>ticks := Suc (ticks s)\<rparr>) of
        (Inl e, s') \<Rightarrow> (Inl (rethrown E name e), s')
      | (Inr r, s') \<Rightarrow>
          (Inr r, s'\<lparr>ticks := Suc (ticks s'),
                     executionTimes := executionTimes s' @ [now E (ticks s') - now E (ticks s)]\<rparr>))"
  unfolding priv_run_def io_bind_def io_catch_def Date_now_def io_modify_def io_return_def
    io_throw_def
  by (simp split: prod.splits sum.splits)

lemmas keeps_intros =
  keeps_return keeps_throw keeps_get keeps_lift keeps_bind keeps_catch keeps_when keeps_if
  keeps_option keeps_prod keeps_array_map keeps_checkRequirements

text \<open>The bodies of the actions and of the blocks inside them.\<close>

lemmas action_defs =
  getPkps_action_def connectToLitNodeClient_action_def connectToLitContracts_action_def
  mintPKP_action_def mintCreditsNFT_action_def createCreditsDelegationToken_action_def
  createAccessToken_action_def grantAuthMethodToUsePKP_action_def
  grantIPFSCIDtoUsePKP_action_def read_signer_def log_signer_def fund_pkp_try_def fund_pkp_def
  resource_ability_def






lemma keepsD: "keeps f m \<Longrightarrow> m s = (r, s') \<Longrightarrow> f s' = f s"
  unfolding keeps_def by (metis snd_conv)





















text \<open>Facts for running the methods on a concrete instance.\<close>

lemmas io_defs =
  io_return_def io_throw_def io_bind_def io_catch_def io_get_def io_modify_def io_lift_def
  io_when_def call_def new_object_def await_def Date_now_def

lemmas class_defs =
  priv_run_def priv_checkRequirements_def priv_setOutput_def require_network_def
  require_litNodeClient_def require_litContracts_def require_signer_def
  this_litContracts_def this_litNodeClient_def output_key_def getOutput_def
  returning_this_def Promise_all_map_def getPkps_entry_def Error_def cross_mark_def
  rethrown_def action_defs without_0x_def resource_case_def

lemmas demo_defs =
  demo_env_def failing_env_def unfunded_env_def rejecting_env_def alice_new_def alice_def

section \<open>Lemmas about the runner and the requirement check\<close>

lemma read_message_Error [simp]: "read_message E (Error m) = Inr m"
  by (simp add: Error_def)

lemma rethrown_Error [simp]:
  "rethrown E name (Error m) = Error (''Error in '' @ name @ '': '' @ m)"
  by (simp add: rethrown_def)

lemma checkRequirements_pair:
  "priv_checkRequirements fn s = (fst (priv_checkRequirements fn s), s)"
  using checkRequirements_state[of fn s] by (metis prod.collapse)

lemma checkRequirements_ticks:
  "fst (priv_checkRequirements fn (s\<lparr>ticks := n\<rparr>)) = fst (priv_checkRequirements fn s)"
  by (cases fn)
    (simp_all add: priv_checkRequirements_def require_network_def require_litNodeClient_def
      require_litContracts_def require_signer_def io_bind_def io_get_def io_throw_def
      io_return_def)

lemma checkRequirements_events:
  "fst (priv_checkRequirements fn (s\<lparr>events := ev\<rparr>)) = fst (priv_checkRequirements fn s)"
  by (cases fn)
    (simp_all add: priv_checkRequirements_def require_network_def require_litNodeClient_def
      require_litContracts_def require_signer_def io_bind_def io_get_def io_throw_def
      io_return_def)

text \<open>The requirement check throws nothing but its four errors.\<close>

lemma checkRequirements_errors:
  "fst (priv_checkRequirements fn s) = Inl e \<Longrightarrow>
   e \<in> {Error (cross_mark @ '' this.network is required''),
        Error (cross_mark @ '' LitNodeClient is required''),
        Error (cross_mark @ '' LitContracts is required''),
        Error (cross_mark @ '' Signer is required'')}"
  by (cases fn)
    (auto simp add: priv_checkRequirements_def require_network_def require_litNodeClient_def
      require_litContracts_def require_signer_def io_bind_def io_get_def io_throw_def
      io_return_def split: if_splits)

lemma priv_run_check_fails:
  assumes "fst (priv_checkRequirements fn s) = Inl e"
  shows "priv_run E name fn action s = (Inl (rethrown E name e), s\<lparr>ticks := Suc (ticks s)\<rparr>)"
proof -
  have "priv_checkRequirements fn (s\<lparr>ticks := Suc (ticks s)\<rparr>) = (Inl e, s\<lparr>ticks := Suc (ticks s)\<rparr>)"
    using checkRequirements_pair[of fn "s\<lparr>ticks := Suc (ticks s)\<rparr>"] assms
    by (simp add: checkRequirements_ticks)
  then show ?thesis
    by (simp add: priv_run_eq io_bind_def)
qed


text \<open>
  The resources of createAccessToken: the constructors run up to the first resource of
  an unsupported type.
\<close>

lemma array_map_resources:
  "array_map resource_ability rs s =
     (case dropWhile (\<lambda>r. resource_case r \<noteq> None) rs of
        [] \<Rightarrow>
          (Inr (List.map_filter resource_case rs),
           s\<lparr>events := events s @
                map (\<lambda>ra. Called (New_resource (fst ra))) (List.map_filter resource_case rs)\<rparr>)
      | r # rest \<Rightarrow>
          (Inl (Error (''Resource type '' @ fst r @ '' is not supported'')),
           s\<lparr>events := events s @
                map (\<lambda>ra. Called (New_resource (fst ra)))
                  (List.map_filter resource_case
                     (takeWhile (\<lambda>r. resource_case r \<noteq> None) rs))\<rparr>))"
proof (induction rs arbitrary: s)
  case Nil
  show ?case by (simp add: io_return_def List.map_filter_simps)
next
  case (Cons r rs)
  show ?case
  proof (cases "resource_case r")
    case None
    then have "resource_ability r s =
        (Inl (Error (''Resource type '' @ fst r @ '' is not supported'')), s)"
      by (simp add: resource_ability_def io_throw_def)
    then show ?thesis
      using None by (simp add: io_bind_def List.map_filter_simps)
  next
    case (Some ra)
    obtain res ability where ra: "ra = (res, ability)" by (cases ra)
    have "resource_ability r s =
        (Inr (res, ability), s\<lparr>events := events s @ [Called (New_resource res)]\<rparr>)"
      using Some ra by (simp add: resource_ability_def io_bind_def io_return_def new_object_def)
    then show ?thesis
      using Some ra
      by (cases "dropWhile (\<lambda>r. resource_case r \<noteq> None) rs")
        (simp_all add: io_bind_def io_return_def Cons List.map_filter_simps
          del: not_None_eq dropWhile_eq_Nil_conv)
  qed
qed

lemma dropWhile_in_set: "dropWhile P xs = r # rest \<Longrightarrow> r \<in> set xs"
  by (metis list.set_intros(1) set_dropWhileD)

lemma returning_priv_run:
  "io_bind (priv_run E name fn action) (\<lambda>x. io_return (g x)) =
   priv_run E name fn (io_bind action (\<lambda>x. io_return (g x)))"
  by (rule ext)
    (simp add: priv_run_eq io_bind_def io_return_def split: prod.splits sum.splits)

text \<open>
  An operation either throws before the runner, in the validation of its parameters or
  (getPkps) in its own requirement check, or it is the run of its action on the instance
  as the runner finds it.
\<close>

lemma createAccessToken_shape:
  "(\<exists>e rs. createAccessToken E p s =
        (Inl e, s\<lparr>events := events s @ map (\<lambda>r. Called (New_resource r)) rs\<rparr>) \<and>
      e \<in> validation_errors (CreateAccessToken p)) \<or>
   createAccessToken E p s =
     priv_run E ''Create Access Token'' FN_createAccessToken
       (createAccessToken_action E p (without_0x (pkpPublicKey p))
          (List.map_filter resource_case (resources p)))
       (entering (CreateAccessToken p) s)"
proof -
  have same: "s\<lparr>events := events s @ map (\<lambda>r. Called (New_resource r)) []\<rparr> = s"
    by simp
  have early: "createAccessToken E p s = (Inl e, s) \<Longrightarrow>
      e \<in> validation_errors (CreateAccessToken p) \<Longrightarrow> ?thesis" for e
    using same by metis
  consider
      (native) "auth_type p = ''eoa'' \<or> auth_type p = ''native_auth''"
    | (neither) "auth_type p \<noteq> ''eoa''" "auth_type p \<noteq> ''native_auth''"
        "auth_type p = ''custom_auth''" "\<not> truthy (code p)" "\<not> truthy (ipfsCid p)"
    | (both) "auth_type p \<noteq> ''eoa''" "auth_type p \<noteq> ''native_auth''"
        "auth_type p = ''custom_auth''" "truthy (code p)" "truthy (ipfsCid p)"
    | (params) "auth_type p \<noteq> ''eoa''" "auth_type p \<noteq> ''native_auth''"
        "auth_type p = ''custom_auth''" "truthy (code p) \<noteq> truthy (ipfsCid p)"
        "jsParams p = None"
    | (valid) "auth_type p \<noteq> ''eoa''" "auth_type p \<noteq> ''native_auth''"
        "auth_type p = ''custom_auth'' \<longrightarrow>
           truthy (code p) \<noteq> truthy (ipfsCid p) \<and> jsParams p \<noteq> None"
    by blast
  then show ?thesis
  proof cases
    case native
    then show ?thesis
      by (intro early[of "Error ''Native auth and EOA are not supported yet''"])
        (simp_all add: createAccessToken_def io_throw_def validation_errors_def)
  next
    case neither
    then show ?thesis
      by (intro early[of "Error ''Either code or ipfsCid must be provided''"])
        (simp_all add: createAccessToken_def io_bind_def io_when_def io_throw_def
          validation_errors_def)
  next
    case both
    then show ?thesis
      by (intro early[of "Error ''Only one of code or ipfsCid should be provided, not both''"])
        (simp_all add: createAccessToken_def io_bind_def io_when_def io_throw_def
          validation_errors_def)
  next
    case params
    then show ?thesis
      by (intro early[of "Error ''jsParams is required''"])
        (auto simp add: createAccessToken_def io_bind_def io_when_def io_throw_def
          validation_errors_def)
  next
    case valid
    then have w: "io_when (auth_type p = ''custom_auth'')
           (if \<not> truthy (code p) \<and> \<not> truthy (ipfsCid p)
            then io_throw (Error ''Either code or ipfsCid must be provided'')
            else if truthy (code p) \<and> truthy (ipfsCid p)
            then io_throw
                   (Error ''Only one of code or ipfsCid should be provided, not both'')
            else if jsParams p = None
            then io_throw (Error ''jsParams is required'')
            else io_return ()) s = (Inr (), s)"
      by (auto simp add: io_when_def io_return_def)
    have unfold: "createAccessToken E p s =
        (if \<not> truthy (pkpPublicKey p)
         then io_throw (Error ''pkpPublicKey is required'')
         else if resources p = []
         then io_throw (Error ''resources is required'')
         else
           io_bind (array_map resource_ability (resources p)) (\<lambda>requestAbilityRequests.
           priv_run E ''Create Access Token'' FN_createAccessToken
             (createAccessToken_action E p (without_0x (pkpPublicKey p))
                requestAbilityRequests))) s"
      using valid(1,2) unfolding createAccessToken_def
      by (simp add: io_bind_def w)
    consider (key) "\<not> truthy (pkpPublicKey p)"
      | (none) "truthy (pkpPublicKey p)" "resources p = []"
      | (some) "truthy (pkpPublicKey p)" "resources p \<noteq> []"
      by blast
    then show ?thesis
    proof cases
      case key
      then show ?thesis
        by (intro early[of "Error ''pkpPublicKey is required''"])
          (simp_all add: unfold io_throw_def validation_errors_def)
    next
      case none
      then show ?thesis
        by (intro early[of "Error ''resources is required''"])
          (simp_all add: unfold io_throw_def validation_errors_def)
    next
      case some
      then have eq: "createAccessToken E p s =
          io_bind (array_map resource_ability (resources p)) (\<lambda>requestAbilityRequests.
            priv_run E ''Create Access Token'' FN_createAccessToken
              (createAccessToken_action E p (without_0x (pkpPublicKey p))
                 requestAbilityRequests)) s"
        by (simp add: unfold)
      show ?thesis
      proof (cases "dropWhile (\<lambda>r. resource_case r \<noteq> None) (resources p)")
        case Nil
        then show ?thesis
          unfolding eq
          by (simp add: io_bind_def array_map_resources
              del: not_None_eq dropWhile_eq_Nil_conv)
      next
        case (Cons r rest)
        have "Error (''Resource type '' @ fst r @ '' is not supported'') \<in>
            validation_errors (CreateAccessToken p)"
          using dropWhile_in_set[OF Cons] by (simp add: validation_errors_def)
        moreover have "createAccessToken E p s =
            (Inl (Error (''Resource type '' @ fst r @ '' is not supported'')),
             s\<lparr>events := events s @
                  map (\<lambda>r. Called (New_resource r))
                    (map fst (List.map_filter resource_case
                       (takeWhile (\<lambda>r. resource_case r \<noteq> None) (resources p))))\<rparr>)"
          unfolding eq using Cons
          by (simp add: io_bind_def array_map_resources comp_def
              del: not_None_eq dropWhile_eq_Nil_conv)
        ultimately show ?thesis by blast
      qed
    qed
  qed
qed

lemma perform_shape:
  "(\<exists>e rs. perform E op s =
        (Inl e, s\<lparr>events := events s @ map (\<lambda>r. Called (New_resource r)) rs\<rparr>) \<and>
      ((\<forall>p. op \<noteq> CreateAccessToken p) \<longrightarrow> rs = []) \<and>
      (e \<in> validation_errors op \<or>
       op = GetPkps \<and> fst (priv_checkRequirements FN_getPkps s) = Inl e)) \<or>
   perform E op s = priv_run E (opName op) (fnName op) (action_of E op) (entering op s)"
proof (cases op)
  case (MintCreditsNFT p)
  show ?thesis
  proof (cases "requestsPerKilosecond p = 0 \<or> daysUntilUTCMidnightExpiration p = 0")
    case True
    then have "perform E op s =
        (Inl (Error ''requestsPerKilosecond and daysUntilUTCMidnightExpiration are required''),
         s\<lparr>events := events s @ map (\<lambda>r. Called (New_resource r)) []\<rparr>)"
      unfolding MintCreditsNFT
      by (simp add: mintCreditsNFT_def returning_this_def io_bind_def io_throw_def)
    moreover have
      "Error ''requestsPerKilosecond and daysUntilUTCMidnightExpiration are required'' \<in>
        validation_errors op"
      unfolding MintCreditsNFT by (simp add: validation_errors_def)
    ultimately show ?thesis by blast
  next
    case False
    then show ?thesis
      unfolding MintCreditsNFT
      by (simp add: mintCreditsNFT_def returning_this_def returning_priv_run)
  qed
next
  case (CreateAccessToken p)
  from createAccessToken_shape[of E p s] show ?thesis
  proof
    assume "\<exists>e rs. createAccessToken E p s =
        (Inl e, s\<lparr>events := events s @ map (\<lambda>r. Called (New_resource r)) rs\<rparr>) \<and>
      e \<in> validation_errors (CreateAccessToken p)"
    then show ?thesis
      unfolding CreateAccessToken by (auto simp add: returning_this_def io_bind_def)
  next
    assume a: "createAccessToken E p s =
     priv_run E ''Create Access Token'' FN_createAccessToken
       (createAccessToken_action E p (without_0x (pkpPublicKey p))
          (List.map_filter resource_case (resources p)))
       (entering (CreateAccessToken p) s)"
    have "perform E op s =
        io_bind (priv_run E ''Create Access Token'' FN_createAccessToken
          (createAccessToken_action E p (without_0x (pkpPublicKey p))
             (List.map_filter resource_case (resources p))))
          (\<lambda>_. io_return This) (entering (CreateAccessToken p) s)"
      unfolding CreateAccessToken
      by (simp add: returning_this_def io_bind_def a[unfolded io_bind_def] del: entering.simps)
    then show ?thesis
      unfolding CreateAccessToken
      by (simp add: returning_priv_run returning_this_def del: entering.simps)
  qed
next
  case GetPkps
  show ?thesis
  proof (cases "fst (priv_checkRequirements FN_getPkps s)")
    case (Inl e)
    then have "priv_checkRequirements FN_getPkps s = (Inl e, s)"
      using checkRequirements_pair[of FN_getPkps s] by simp
    then have "perform E op s =
        (Inl e, s\<lparr>events := events s @ map (\<lambda>r. Called (New_resource r)) []\<rparr>)"
      unfolding GetPkps by (simp add: getPkps_def io_bind_def)
    with Inl GetPkps show ?thesis by blast
  next
    case (Inr u)
    then have "priv_checkRequirements FN_getPkps s = (Inr u, s)"
      using checkRequirements_pair[of FN_getPkps s] by simp
    then have "perform E op s =
        io_bind (priv_run E ''Get PKPs'' FN_getPkps (getPkps_action E))
          (\<lambda>res. io_return (Pkps res)) s"
      unfolding GetPkps by (simp add: getPkps_def io_bind_def)
    then show ?thesis
      unfolding GetPkps by (simp add: returning_priv_run)
  qed
qed (simp_all add: connectToLitNodeClient_def connectToLitContracts_def mintPKP_def
      createCreditsDelegationToken_def grantAuthMethodToUsePKP_def grantIPFSCIDtoUsePKP_def
      returning_this_def returning_priv_run Let_def)

lemmas require_defs =
  priv_checkRequirements_def require_network_def require_litNodeClient_def
  require_litContracts_def require_signer_def io_bind_def io_get_def io_throw_def io_return_def

lemma entering_fields [simp]:
  "outputs (entering op s) = outputs s" "ticks (entering op s) = ticks s"
  "executionTimes (entering op s) = executionTimes s"
  "litContracts (entering op s) = litContracts s" "signer (entering op s) = signer s"
  "litNodeClient (entering op s) = litNodeClient s" "network (entering op s) = network s"
  by (cases op; simp)+

lemma entering_check:
  "fst (priv_checkRequirements fn (entering op s)) = fst (priv_checkRequirements fn s)"
  by (cases op) (simp_all add: checkRequirements_events)

lemma entering_events:
  "\<exists>rs. entering op s = s\<lparr>events := events s @ map (\<lambda>r. Called (New_resource r)) rs\<rparr> \<and>
     ((\<forall>p. op \<noteq> CreateAccessToken p) \<longrightarrow> rs = [])"
proof (cases op)
  case (CreateAccessToken p)
  have "entering op s =
      s\<lparr>events := events s @ map (\<lambda>r. Called (New_resource r))
                    (map fst (List.map_filter resource_case (resources p)))\<rparr>"
    unfolding CreateAccessToken by (simp add: comp_def)
  then show ?thesis unfolding CreateAccessToken by blast
qed (rule exI[of _ "[]"], simp)+

text \<open>An operation whose requirement check throws.\<close>

lemma perform_check_fails:
  assumes chk: "fst (priv_checkRequirements (fnName op) this) = Inl e"
  shows "perform E op this =
           (Inl (rethrown E (opName op) e), (entering op this)\<lparr>ticks := Suc (ticks this)\<rparr>) \<or>
         op = GetPkps \<and> perform E op this = (Inl e, this) \<or>
         (\<exists>e' \<in> validation_errors op. \<exists>rs.
            perform E op this =
              (Inl e', this\<lparr>events := events this @ map (\<lambda>r. Called (New_resource r)) rs\<rparr>) \<and>
            ((\<forall>p. op \<noteq> CreateAccessToken p) \<longrightarrow> rs = []))"
  using perform_shape[of E op this]
proof
  assume "\<exists>e rs. perform E op this =
        (Inl e, this\<lparr>events := events this @ map (\<lambda>r. Called (New_resource r)) rs\<rparr>) \<and>
      ((\<forall>p. op \<noteq> CreateAccessToken p) \<longrightarrow> rs = []) \<and>
      (e \<in> validation_errors op \<or>
       op = GetPkps \<and> fst (priv_checkRequirements FN_getPkps this) = Inl e)"
  then obtain e' rs where e': "perform E op this =
        (Inl e', this\<lparr>events := events this @ map (\<lambda>r. Called (New_resource r)) rs\<rparr>)"
    and rs: "(\<forall>p. op \<noteq> CreateAccessToken p) \<longrightarrow> rs = []"
    and c: "e' \<in> validation_errors op \<or>
       op = GetPkps \<and> fst (priv_checkRequirements FN_getPkps this) = Inl e'"
    by blast
  from c show ?thesis
  proof
    assume "e' \<in> validation_errors op"
    with e' rs show ?thesis by blast
  next
    assume g: "op = GetPkps \<and> fst (priv_checkRequirements FN_getPkps this) = Inl e'"
    then have "rs = []" using rs by simp
    with g chk e' show ?thesis by simp
  qed
next
  assume "perform E op this =
    priv_run E (opName op) (fnName op) (action_of E op) (entering op this)"
  moreover have "fst (priv_checkRequirements (fnName op) (entering op this)) = Inl e"
    using chk by (simp add: entering_check)
  ultimately show ?thesis
    by (simp add: priv_run_check_fails)
qed

section \<open>Lemmas about the output cache\<close>

lemma FN_inj: "FN fn = FN fn' \<Longrightarrow> fn = fn'"
  by (cases fn; cases fn'; simp)

lemma FN_no_colon: "CHR '':'' \<notin> set (FN fn)"
  by (cases fn) simp_all

lemma takeWhile_until: "x \<notin> set xs \<Longrightarrow> takeWhile (\<lambda>c. c \<noteq> x) (xs @ x # ys) = xs"
  by (induction xs) auto

lemma output_key_name: "takeWhile (\<lambda>c. c \<noteq> CHR '':'') (output_key fn i) = FN fn"
proof -
  have plain: "takeWhile (\<lambda>c. c \<noteq> CHR '':'') (FN fn) = FN fn"
    using FN_no_colon[of fn] by (auto simp add: takeWhile_eq_all_conv)
  have keyed: "takeWhile (\<lambda>c. c \<noteq> CHR '':'') (FN fn @ CHR '':'' # j) = FN fn" for j
    by (rule takeWhile_until[OF FN_no_colon])
  show ?thesis
    by (simp add: output_key_def plain keyed split: option.splits del: FN.simps)
qed

lemma output_key_inj: "output_key fn i = output_key fn' i' \<Longrightarrow> fn = fn'"
  using output_key_name[of fn i] output_key_name[of fn' i'] FN_inj by metis

lemma output_key_plain: "\<not> truthy i \<Longrightarrow> output_key fn i = FN fn"
  by (cases i) (simp_all add: output_key_def)

lemma output_key_keyed: "truthy i \<Longrightarrow> output_key fn i \<noteq> FN fn"
  by (cases i) (simp_all add: output_key_def)

lemma keeps_outputs_calls:
  "keeps outputs (await c r)" "keeps outputs (call c r)" "keeps outputs (new_object c)"
  by (rule keeps_calls; simp)+

lemma keeps_outputs_this:
  "keeps outputs (this_litContracts E m)" "keeps outputs (this_litNodeClient E m)"
  unfolding this_litContracts_def this_litNodeClient_def
  by (intro keeps_intros)+

lemmas keeps_outputs_intros = keeps_intros keeps_outputs_calls keeps_outputs_this keeps_modify

lemma keeps_outputs_attach: "keeps outputs (attach_signer E sg)"
  unfolding attach_signer_def
  by (intro keeps_outputs_intros) simp_all

lemma keeps_outputs_fund: "keeps outputs (fund_pkp E a t)"
  unfolding fund_pkp_def fund_pkp_try_def
  by (intro keeps_outputs_intros)

lemma stores_throw: "stores_under key (io_throw e)"
  by (simp add: stores_under_def io_throw_def)

lemma stores_setOutput: "stores_under (output_key fn i) (priv_setOutput fn v i)"
  by (auto simp add: stores_under_def priv_setOutput_def io_modify_def)

lemma stores_if:
  "(b \<Longrightarrow> stores_under key m) \<Longrightarrow> (\<not> b \<Longrightarrow> stores_under key n) \<Longrightarrow>
   stores_under key (if b then m else n)"
  by simp

lemma stores_option:
  "stores_under key n \<Longrightarrow> (\<And>x. stores_under key (k x)) \<Longrightarrow>
   stores_under key (case v of None \<Rightarrow> n | Some x \<Rightarrow> k x)"
  by (cases v) simp_all

lemma storesD_Inl: "stores_under key m \<Longrightarrow> m s = (Inl e, s') \<Longrightarrow> outputs s' = outputs s"
  unfolding stores_under_def by (auto dest!: spec[of _ s])

lemma storesD_Inr:
  "stores_under key m \<Longrightarrow> m s = (Inr x, s') \<Longrightarrow> \<exists>v. outputs s' = (outputs s)(key \<mapsto> v)"
  unfolding stores_under_def by (auto dest!: spec[of _ s])

lemma stores_bind:
  assumes m: "keeps outputs m" and k: "\<And>x. stores_under key (k x)"
  shows "stores_under key (io_bind m k)"
  unfolding stores_under_def
proof
  fix s :: bulkie
  obtain r s1 where ms: "m s = (r, s1)" by (cases "m s")
  have c: "outputs s1 = outputs s" by (rule keepsD[OF m ms])
  show "case io_bind m k s of
      (Inl e, s') \<Rightarrow> outputs s' = outputs s
    | (Inr x, s') \<Rightarrow> \<exists>v. outputs s' = (outputs s)(key \<mapsto> v)"
  proof (cases r)
    case (Inl e)
    then show ?thesis using ms c by (simp add: io_bind_def)
  next
    case (Inr x)
    obtain r2 s2 where ks: "k x s1 = (r2, s2)" by (cases "k x s1")
    show ?thesis
      using storesD_Inl[OF k, of x s1 _ s2] storesD_Inr[OF k, of x s1 _ s2] ms c Inr ks
      by (cases r2) (simp_all add: io_bind_def)
  qed
qed

lemma stores_returning:
  assumes m: "stores_under key m"
  shows "stores_under key (io_bind m (\<lambda>x. io_return (g x)))"
  unfolding stores_under_def
proof
  fix s :: bulkie
  obtain r s1 where ms: "m s = (r, s1)" by (cases "m s")
  show "case io_bind m (\<lambda>x. io_return (g x)) s of
      (Inl e, s') \<Rightarrow> outputs s' = outputs s
    | (Inr x, s') \<Rightarrow> \<exists>v. outputs s' = (outputs s)(key \<mapsto> v)"
    using storesD_Inl[OF m, of s _ s1] storesD_Inr[OF m, of s _ s1] ms
    by (cases r) (simp_all add: io_bind_def io_return_def)
qed

lemma stores_priv_run:
  assumes a: "stores_under key action"
  shows "stores_under key (priv_run E name fn action)"
  unfolding stores_under_def
proof
  fix s :: bulkie
  let ?s0 = "s\<lparr>ticks := Suc (ticks s)\<rparr>"
  have g: "stores_under key (io_bind (priv_checkRequirements fn) (\<lambda>_. action))"
    by (intro stores_bind keeps_checkRequirements a)
  obtain r s1 where run: "io_bind (priv_checkRequirements fn) (\<lambda>_. action) ?s0 = (r, s1)"
    by (cases "io_bind (priv_checkRequirements fn) (\<lambda>_. action) ?s0")
  show "case priv_run E name fn action s of
      (Inl e, s') \<Rightarrow> outputs s' = outputs s
    | (Inr x, s') \<Rightarrow> \<exists>v. outputs s' = (outputs s)(key \<mapsto> v)"
    using storesD_Inl[OF g, of ?s0 _ s1] storesD_Inr[OF g, of ?s0 _ s1] run
    by (cases r) (simp_all add: priv_run_eq)
qed

lemmas stores_intros =
  stores_priv_run stores_bind stores_throw stores_setOutput stores_if stores_option

lemma stores_perform:
  "op \<noteq> GetPkps \<Longrightarrow> stores_under (output_key (fnName op) (outputId_of op)) (perform E op)"
proof (cases op)
  case (ConnectToLitNodeClient p)
  show ?thesis
    unfolding ConnectToLitNodeClient perform.simps returning_this_def fnName.simps
      outputId_of.simps connectToLitNodeClient_def action_defs Let_def
    by (intro stores_returning stores_intros keeps_outputs_intros) simp_all
next
  case (ConnectToLitContracts p)
  show ?thesis
    unfolding ConnectToLitContracts perform.simps returning_this_def fnName.simps
      outputId_of.simps connectToLitContracts_def action_defs Let_def
    by (intro stores_returning stores_intros keeps_outputs_intros keeps_outputs_attach)
      simp_all
next
  case (MintPKP p)
  show ?thesis
    unfolding MintPKP perform.simps returning_this_def fnName.simps
      outputId_of.simps mintPKP_def action_defs Let_def
    by (intro stores_returning stores_intros keeps_outputs_intros keeps_outputs_fund)
next
  case (MintCreditsNFT p)
  show ?thesis
    unfolding MintCreditsNFT perform.simps returning_this_def fnName.simps
      outputId_of.simps mintCreditsNFT_def action_defs Let_def
    by (intro stores_returning stores_intros keeps_outputs_intros)
next
  case (CreateCreditsDelegationToken p)
  show ?thesis
    unfolding CreateCreditsDelegationToken perform.simps returning_this_def fnName.simps
      outputId_of.simps createCreditsDelegationToken_def action_defs Let_def
    by (intro stores_returning stores_intros keeps_outputs_intros)
next
  case (CreateAccessToken p)
  show ?thesis
    unfolding CreateAccessToken perform.simps returning_this_def fnName.simps
      outputId_of.simps createAccessToken_def action_defs Let_def
    by (intro stores_returning stores_intros keeps_outputs_intros)
next
  case (GrantAuthMethodToUsePKP p)
  show ?thesis
    unfolding GrantAuthMethodToUsePKP perform.simps returning_this_def fnName.simps
      outputId_of.simps grantAuthMethodToUsePKP_def action_defs Let_def
    by (intro stores_returning stores_intros keeps_outputs_intros)
next
  case (GrantIPFSCIDtoUsePKP p)
  show ?thesis
    unfolding GrantIPFSCIDtoUsePKP perform.simps returning_this_def fnName.simps
      outputId_of.simps grantIPFSCIDtoUsePKP_def action_defs Let_def
    by (intro stores_returning stores_intros keeps_outputs_intros)
next
  case GetPkps
  assume "op \<noteq> GetPkps"
  with GetPkps show ?thesis by simp
qed

lemma perform_outputs:
  assumes op: "op \<noteq> GetPkps" and run: "perform E op this = (r, this')"
  shows "case r of
           Inl e \<Rightarrow> outputs this' = outputs this
         | Inr x \<Rightarrow> \<exists>v. outputs this' =
                           (outputs this)(output_key (fnName op) (outputId_of op) \<mapsto> v)"
  using storesD_Inl[OF stores_perform[OF op, of E], of this _ this']
    storesD_Inr[OF stores_perform[OF op, of E], of this _ this'] run
  by (cases r) simp_all

section \<open>Lemmas about traces\<close>

lemma sequential_append: "sequential a \<Longrightarrow> sequential b \<Longrightarrow> sequential (a @ b)"
  by (induction a rule: sequential.induct) simp_all

lemma sequential_peak: "sequential tr \<Longrightarrow> peak_in_flight 0 tr \<le> 1"
  by (induction tr rule: sequential.induct) simp_all

lemma tsD:
  "trace_sequential m \<Longrightarrow> m s = (r, s') \<Longrightarrow> \<exists>tr. events s' = events s @ tr \<and> sequential tr"
  unfolding trace_sequential_def by (auto dest!: spec[of _ s])

lemma ts_keeps: "keeps events m \<Longrightarrow> trace_sequential m"
  unfolding keeps_def trace_sequential_def by (metis append_Nil2 sequential.simps(1))

lemma ts_plain:
  "trace_sequential (io_return x)" "trace_sequential (io_throw e)" "trace_sequential io_get"
  "trace_sequential (io_lift r)" "trace_sequential (priv_checkRequirements fn)"
  by (intro ts_keeps keeps_intros)+

lemma ts_modify: "(\<And>s. events (g s) = events s) \<Longrightarrow> trace_sequential (io_modify g)"
  by (intro ts_keeps keeps_modify)

lemma ts_Date_now: "trace_sequential (Date_now E)"
  by (intro ts_keeps keeps_Date_now) simp

lemma ts_setOutput: "trace_sequential (priv_setOutput fn v i)"
  unfolding priv_setOutput_def by (rule ts_modify) simp

lemma ts_calls:
  "trace_sequential (await c r)" "trace_sequential (call c r)" "trace_sequential (new_object c)"
  by (simp_all add: trace_sequential_def await_def call_def new_object_def)

lemma ts_bind:
  assumes m: "trace_sequential m" and k: "\<And>x. trace_sequential (k x)"
  shows "trace_sequential (io_bind m k)"
  unfolding trace_sequential_def
proof
  fix s :: bulkie
  obtain r s1 where ms: "m s = (r, s1)" by (cases "m s")
  obtain tr1 where tr1: "events s1 = events s @ tr1" "sequential tr1"
    using tsD[OF m ms] by blast
  show "\<exists>tr. events (snd (io_bind m k s)) = events s @ tr \<and> sequential tr"
  proof (cases r)
    case (Inl e)
    then show ?thesis using ms tr1 by (auto simp add: io_bind_def)
  next
    case (Inr x)
    obtain r2 s2 where ks: "k x s1 = (r2, s2)" by (cases "k x s1")
    obtain tr2 where tr2: "events s2 = events s1 @ tr2" "sequential tr2"
      using tsD[OF k ks] by blast
    have "events s2 = events s @ (tr1 @ tr2)" "sequential (tr1 @ tr2)"
      using tr1 tr2 by (simp_all add: sequential_append)
    then show ?thesis
      using ms Inr ks by (auto simp add: io_bind_def)
  qed
qed

lemma ts_catch:
  assumes m: "trace_sequential m" and h: "\<And>e. trace_sequential (h e)"
  shows "trace_sequential (io_catch m h)"
  unfolding trace_sequential_def
proof
  fix s :: bulkie
  obtain r s1 where ms: "m s = (r, s1)" by (cases "m s")
  obtain tr1 where tr1: "events s1 = events s @ tr1" "sequential tr1"
    using tsD[OF m ms] by blast
  show "\<exists>tr. events (snd (io_catch m h s)) = events s @ tr \<and> sequential tr"
  proof (cases r)
    case (Inr x)
    then show ?thesis using ms tr1 by (auto simp add: io_catch_def)
  next
    case (Inl e)
    obtain r2 s2 where hs: "h e s1 = (r2, s2)" by (cases "h e s1")
    obtain tr2 where tr2: "events s2 = events s1 @ tr2" "sequential tr2"
      using tsD[OF h hs] by blast
    have "events s2 = events s @ (tr1 @ tr2)" "sequential (tr1 @ tr2)"
      using tr1 tr2 by (simp_all add: sequential_append)
    then show ?thesis
      using ms Inl hs by (auto simp add: io_catch_def)
  qed
qed

lemma ts_if:
  "(b \<Longrightarrow> trace_sequential m) \<Longrightarrow> (\<not> b \<Longrightarrow> trace_sequential n) \<Longrightarrow>
   trace_sequential (if b then m else n)"
  by simp

lemma ts_option:
  "trace_sequential n \<Longrightarrow> (\<And>x. trace_sequential (k x)) \<Longrightarrow>
   trace_sequential (case v of None \<Rightarrow> n | Some x \<Rightarrow> k x)"
  by (cases v) simp_all

lemma ts_when: "trace_sequential m \<Longrightarrow> trace_sequential (io_when b m)"
  by (simp add: io_when_def ts_plain)

lemma ts_prod:
  "(\<And>a b. trace_sequential (k a b)) \<Longrightarrow> trace_sequential (case p of (a, b) \<Rightarrow> k a b)"
  by (cases p) simp

lemma ts_array_map:
  "(\<And>x. trace_sequential (g x)) \<Longrightarrow> trace_sequential (array_map g xs)"
  by (induction xs) (simp_all add: ts_plain ts_bind)

lemmas ts_intros =
  ts_plain ts_modify ts_Date_now ts_setOutput ts_calls ts_bind ts_catch ts_if ts_option ts_when
  ts_prod ts_array_map

lemma ts_this:
  "trace_sequential (this_litContracts E m)" "trace_sequential (this_litNodeClient E m)"
  unfolding this_litContracts_def this_litNodeClient_def
  by (intro ts_intros)+

lemma ts_priv_run: "trace_sequential action \<Longrightarrow> trace_sequential (priv_run E name fn action)"
  unfolding priv_run_def by (intro ts_intros) simp_all

lemma ts_attach: "trace_sequential (attach_signer E sg)"
  unfolding attach_signer_def by (intro ts_intros) simp_all

lemma ts_perform: "op \<noteq> GetPkps \<Longrightarrow> trace_sequential (perform E op)"
proof (cases op)
  case (ConnectToLitNodeClient p)
  show ?thesis
    unfolding ConnectToLitNodeClient perform.simps returning_this_def
      connectToLitNodeClient_def action_defs Let_def
    by (intro ts_priv_run ts_intros) simp_all
next
  case (ConnectToLitContracts p)
  show ?thesis
    unfolding ConnectToLitContracts perform.simps returning_this_def
      connectToLitContracts_def action_defs Let_def
    by (intro ts_priv_run ts_intros ts_attach) simp_all
next
  case (MintPKP p)
  show ?thesis
    unfolding MintPKP perform.simps returning_this_def mintPKP_def action_defs Let_def
    by (intro ts_priv_run ts_intros ts_this)
next
  case (MintCreditsNFT p)
  show ?thesis
    unfolding MintCreditsNFT perform.simps returning_this_def mintCreditsNFT_def action_defs
    by (intro ts_priv_run ts_intros ts_this)
next
  case (CreateCreditsDelegationToken p)
  show ?thesis
    unfolding CreateCreditsDelegationToken perform.simps returning_this_def
      createCreditsDelegationToken_def action_defs
    by (intro ts_priv_run ts_intros ts_this)
next
  case (CreateAccessToken p)
  show ?thesis
    unfolding CreateAccessToken perform.simps returning_this_def createAccessToken_def
      action_defs Let_def
    by (intro ts_priv_run ts_intros ts_this)
next
  case (GrantAuthMethodToUsePKP p)
  show ?thesis
    unfolding GrantAuthMethodToUsePKP perform.simps returning_this_def
      grantAuthMethodToUsePKP_def action_defs Let_def
    by (intro ts_priv_run ts_intros ts_this)
next
  case (GrantIPFSCIDtoUsePKP p)
  show ?thesis
    unfolding GrantIPFSCIDtoUsePKP perform.simps returning_this_def
      grantIPFSCIDtoUsePKP_def action_defs Let_def
    by (intro ts_priv_run ts_intros ts_this)
next
  case GetPkps
  assume "op \<noteq> GetPkps"
  with GetPkps show ?thesis by simp
qed

text \<open>The fan-out of getPkps.\<close>

lemma peak_ge: "n \<le> peak_in_flight n tr"
  by (induction n tr rule: peak_in_flight.induct) auto

lemma peak_settles: "peak_in_flight m (map (\<lambda>x. Settle (c x)) ys) = m"
  by (induction ys arbitrary: m) simp_all

lemma peak_issues:
  "peak_in_flight k (map (\<lambda>x. Issue (c x)) xs @ tr) = peak_in_flight (k + length xs) tr"
proof (induction xs arbitrary: k)
  case Nil
  then show ?case by simp
next
  case (Cons x xs)
  have "Suc k \<le> peak_in_flight (Suc k + length xs) tr"
    using peak_ge[of "Suc k + length xs" tr] by simp
  then show ?case
    using Cons[of "Suc k"] by simp
qed

lemma peak_fan_out:
  "peak_in_flight k (map (\<lambda>x. Issue (c x)) xs @ map (\<lambda>x. Settle (c x)) ys) =
     k + length xs"
  by (simp add: peak_issues peak_settles)

lemma resume_all_trace:
  "\<exists>j. j \<le> length xs \<and> (xs \<noteq> [] \<longrightarrow> 0 < j) \<and>
       events (snd (resume_all c reply k n xs s)) =
         events s @ map (\<lambda>x. Settle (c x)) (take j xs) \<and>
       (\<forall>ys. fst (resume_all c reply k n xs s) = Inr ys \<longrightarrow> j = length xs)"
proof (induction xs arbitrary: n s)
  case Nil
  then show ?case by (simp add: io_return_def)
next
  case (Cons x xs)
  let ?s1 = "s\<lparr>events := events s @ [Settle (c x)]\<rparr>"
  show ?case
  proof (cases "case reply n (c x) of Inl e \<Rightarrow> Inl e | Inr r \<Rightarrow> k x r")
    case (Inl e)
    then have "events (snd (resume_all c reply k n (x # xs) s)) =
        events s @ map (\<lambda>x. Settle (c x)) (take 1 (x # xs))"
      and "\<forall>ys. fst (resume_all c reply k n (x # xs) s) \<noteq> Inr ys"
      by (simp_all add: io_bind_def io_modify_def io_lift_def)
    then show ?thesis
      by (intro exI[of _ 1]) simp
  next
    case (Inr y)
    obtain j where j: "j \<le> length xs"
      "events (snd (resume_all c reply k (Suc n) xs ?s1)) =
        events ?s1 @ map (\<lambda>x. Settle (c x)) (take j xs)"
      "\<forall>ys. fst (resume_all c reply k (Suc n) xs ?s1) = Inr ys \<longrightarrow> j = length xs"
      using Cons.IH[of "Suc n" ?s1] by blast
    have ev: "events (snd (resume_all c reply k n (x # xs) s)) =
        events (snd (resume_all c reply k (Suc n) xs ?s1))"
      using Inr
      by (simp add: io_bind_def io_modify_def io_lift_def io_return_def
          split: prod.splits sum.splits)
    have ok: "fst (resume_all c reply k n (x # xs) s) = Inr ys \<Longrightarrow>
        \<exists>zs. fst (resume_all c reply k (Suc n) xs ?s1) = Inr zs" for ys
      using Inr
      by (simp add: io_bind_def io_modify_def io_lift_def io_return_def
          split: prod.splits sum.splits)
    from ev j(2) have "events (snd (resume_all c reply k n (x # xs) s)) =
        events s @ map (\<lambda>x. Settle (c x)) (take (Suc j) (x # xs))"
      by simp
    moreover have "\<forall>ys. fst (resume_all c reply k n (x # xs) s) = Inr ys \<longrightarrow>
        Suc j = length (x # xs)"
      using ok j(3) by auto
    ultimately show ?thesis
      using j(1) by (intro exI[of _ "Suc j"]) simp
  qed
qed

lemma Promise_all_trace:
  "\<exists>j. j \<le> length xs \<and> (xs \<noteq> [] \<longrightarrow> 0 < j) \<and>
       events (snd (Promise_all_map c reply k xs s)) =
         events s @ map (\<lambda>x. Issue (c x)) xs @ map (\<lambda>x. Settle (c x)) (take j xs) \<and>
       (\<forall>ys. fst (Promise_all_map c reply k xs s) = Inr ys \<longrightarrow> j = length xs)"
proof -
  let ?s1 = "s\<lparr>events := events s @ map (\<lambda>x. Issue (c x)) xs\<rparr>"
  have eq: "Promise_all_map c reply k xs s = resume_all c reply k (length (events s)) xs ?s1"
    by (simp add: Promise_all_map_def io_bind_def io_get_def io_modify_def)
  from resume_all_trace[of xs c reply k "length (events s)" ?s1]
  show ?thesis unfolding eq by simp
qed

lemma priv_run_check_passes:
  assumes "fst (priv_checkRequirements fn s) = Inr ()"
  shows "priv_run E name fn action s =
    (case action (s\<lparr>ticks := Suc (ticks s)\<rparr>) of
        (Inl e, s') \<Rightarrow> (Inl (rethrown E name e), s')
      | (Inr r, s') \<Rightarrow>
          (Inr r, s'\<lparr>ticks := Suc (ticks s'),
                     executionTimes := executionTimes s' @ [now E (ticks s') - now E (ticks s)]\<rparr>))"
proof -
  have "priv_checkRequirements fn (s\<lparr>ticks := Suc (ticks s)\<rparr>) = (Inr (), s\<lparr>ticks := Suc (ticks s)\<rparr>)"
    using checkRequirements_pair[of fn "s\<lparr>ticks := Suc (ticks s)\<rparr>"] assms
    by (simp add: checkRequirements_ticks)
  then show ?thesis
    by (simp add: priv_run_eq io_bind_def)
qed

text \<open>
  getPkps once the signer address and the token list have arrived: the two calls in
  turn, then the getPubkey calls of all tokens, then resumptions in the order of issue.
\<close>

lemma getPkps_action_trace:
  assumes sg: "signer s = Some sg" and lc: "litContracts s \<noteq> None"
    and a: "reply_string E (length (events s)) (Signer_getAddress sg) = Inr a" "a \<noteq> []"
    and tokens: "reply_strings E (length (events s) + 2) (PkpNft_getTokensByAddress a) =
      Inr tokens"
  shows "\<exists>j. j \<le> length tokens \<and> (tokens \<noteq> [] \<longrightarrow> 0 < j) \<and>
       events (snd (getPkps_action E s)) =
         events s @
         [Issue (Signer_getAddress sg), Settle (Signer_getAddress sg),
          Issue (PkpNft_getTokensByAddress a), Settle (PkpNft_getTokensByAddress a)] @
         map (\<lambda>t. Issue (PkpPermissions_getPubkey t)) tokens @
         map (\<lambda>t. Settle (PkpPermissions_getPubkey t)) (take j tokens) \<and>
       (\<forall>ys. fst (getPkps_action E s) = Inr ys \<longrightarrow> j = length tokens)"
proof -
  let ?s2 = "s\<lparr>events := events s @
      [Issue (Signer_getAddress sg), Settle (Signer_getAddress sg),
       Issue (PkpNft_getTokensByAddress a), Settle (PkpNft_getTokensByAddress a)]\<rparr>"
  obtain c where c: "litContracts s = Some c" using lc by blast
  have eq: "getPkps_action E s =
      Promise_all_map PkpPermissions_getPubkey (reply_string E) (getPkps_entry E) tokens ?s2"
    using sg c a tokens
    by (simp add: getPkps_action_def this_litContracts_def io_bind_def io_get_def
        io_return_def await_def)
  from Promise_all_trace[of tokens PkpPermissions_getPubkey "reply_string E"
      "getPkps_entry E" ?s2]
  show ?thesis unfolding eq by simp
qed

text \<open>getPkps when the signer address or the token list does not arrive.\<close>

lemma getPkps_action_early:
  assumes "\<And>sg a tokens. signer s = Some sg \<Longrightarrow>
      reply_string E (length (events s)) (Signer_getAddress sg) = Inr a \<Longrightarrow> a \<noteq> [] \<Longrightarrow>
      litContracts s \<noteq> None \<Longrightarrow>
      reply_strings E (length (events s) + 2) (PkpNft_getTokensByAddress a) \<noteq> Inr tokens"
  shows "\<exists>tr. events (snd (getPkps_action E s)) = events s @ tr \<and> sequential tr"
proof (cases "signer s")
  case None
  then have "events (snd (getPkps_action E s)) = events s @ []"
    by (simp add: getPkps_action_def io_bind_def io_get_def io_return_def io_throw_def)
  then show ?thesis by (intro exI[of _ "[]"]) simp
next
  case (Some sg)
  let ?ga = "[Issue (Signer_getAddress sg), Settle (Signer_getAddress sg)]"
  show ?thesis
  proof (cases "reply_string E (length (events s)) (Signer_getAddress sg)")
    case (Inl e)
    then have "events (snd (getPkps_action E s)) = events s @ ?ga"
      using Some
      by (simp add: getPkps_action_def io_bind_def io_get_def io_return_def await_def)
    then show ?thesis by (intro exI[of _ ?ga]) simp
  next
    case (Inr a)
    show ?thesis
    proof (cases "a = [] \<or> litContracts s = None")
      case True
      then have "events (snd (getPkps_action E s)) = events s @ ?ga"
        using Some Inr
        by (auto simp add: getPkps_action_def this_litContracts_def io_bind_def io_get_def
            io_return_def io_throw_def await_def)
      then show ?thesis by (intro exI[of _ ?ga]) simp
    next
      case False
      let ?gt = "?ga @ [Issue (PkpNft_getTokensByAddress a),
        Settle (PkpNft_getTokensByAddress a)]"
      obtain e where "reply_strings E (length (events s) + 2) (PkpNft_getTokensByAddress a) =
          Inl e"
        using assms[OF Some Inr] False
        by (cases "reply_strings E (length (events s) + 2) (PkpNft_getTokensByAddress a)") auto
      then have "events (snd (getPkps_action E s)) = events s @ ?gt"
        using Some Inr False
        by (auto simp add: getPkps_action_def this_litContracts_def io_bind_def io_get_def
            io_return_def io_throw_def await_def)
      then show ?thesis by (intro exI[of _ ?gt]) simp
    qed
  qed
qed

section \<open>Lemmas about the matcher\<close>

lemma replace_eq_replace_matches:
  assumes m: "\<And>cs. match_here re cs = m cs" and nonempty: "\<And>cs. m cs \<noteq> Some 0"
    and nil: "m [] = None"
  shows "replace re rep cs = replace_matches m rep cs"
proof (induction "length cs" arbitrary: cs rule: less_induct)
  case less
  show ?case
  proof (cases cs)
    case Nil
    then show ?thesis using m[of "[]"] nil by simp
  next
    case (Cons c r)
    show ?thesis
    proof (cases "m (c # r)")
      case None
      then show ?thesis using Cons m[of "c # r"] less[of r] by simp
    next
      case (Some k)
      then obtain n where k: "k = Suc n" using nonempty[of "c # r"] by (cases k) auto
      have "length (drop n r) < length cs" using Cons by simp
      then show ?thesis using Cons Some k m[of "c # r"] less[of "drop n r"] by simp
    qed
  qed
qed

lemma map_option_add:
  "map_option ((+) (0::nat)) x = x" "map_option ((+) (Suc 0)) x = map_option Suc x"
  by (cases x; simp)+

lemma match_literal_append:
  "match_here (literal w @ re) cs =
     (if prefix (units w) cs
      then map_option (\<lambda>k. length w + k) (match_here re (drop (length w) cs))
      else None)"
proof (induction w arbitrary: cs)
  case Nil
  then show ?case by (simp add: literal_def units_def map_option_add)
next
  case (Cons a w)
  have IH: "match_here (literal w @ re) r =
     (if prefix (units w) r
      then map_option (\<lambda>k. length w + k) (match_here re (drop (length w) r))
      else None)" for r
    using Cons.IH by simp
  show ?case
  proof (cases cs)
    case Nil
    then show ?thesis by (simp add: literal_def units_def)
  next
    case (Cons c r)
    have lit: "literal (a # w) @ re = ((\<lambda>u. u = of_char a), Once) # (literal w @ re)"
      by (simp add: literal_def)
    show ?thesis
      unfolding lit Cons
      by (auto simp add: IH units_def option.map_comp comp_def)
  qed
qed

lemma match_literal: "match_here (literal w) cs = occurrence (units w) cs"
  using match_literal_append[of w "[]" cs]
  by (simp add: occurrence_def units_def)

lemma match_plus:
  assumes follow: "\<And>c cs. cls c \<Longrightarrow> match_here re (c # cs) = None"
  shows "match_here ((cls, OneOrMore) # re) cs =
     (if takeWhile cls cs = [] then None
      else map_option (\<lambda>k. length (takeWhile cls cs) + k) (match_here re (dropWhile cls cs)))"
proof (induction cs)
  case Nil
  then show ?case by simp
next
  case (Cons c cs)
  show ?case
  proof (cases "cls c")
    case False
    then show ?thesis by simp
  next
    case True
    show ?thesis
    proof (cases "takeWhile cls cs = []")
      case True
      with \<open>cls c\<close> Cons show ?thesis
        by (cases cs) (auto simp add: map_option_add)
    next
      case False
      then obtain d ds where cs: "cs = d # ds" and d: "cls d"
        by (cases cs) (auto split: if_splits)
      have none: "match_here re cs = None" using follow[OF d] cs by simp
      show ?thesis
        using \<open>cls c\<close> False Cons none
        by (cases "match_here re (dropWhile cls cs)") (simp_all add: cs d)
    qed
  qed
qed

text \<open>The classes of the patterns are the characters of the description.\<close>

lemma between: "a \<le> u \<Longrightarrow> u \<le> b \<Longrightarrow> u \<in> of_nat ` set [unat a..<Suc (unat b)]"
  for u :: "16 word"
proof -
  assume "a \<le> u" "u \<le> b"
  then have "unat u \<in> set [unat a..<Suc (unat b)]"
    by (auto simp add: word_le_nat_alt)
  then have "of_nat (unat u) \<in> (of_nat ` set [unat a..<Suc (unat b)] :: 16 word set)"
    by (rule imageI)
  then show ?thesis by simp
qed

lemma is_letter_eq: "is_letter u = ascii_letter u"
proof
  assume "is_letter u"
  then consider "0x41 \<le> u" "u \<le> 0x5A" | "0x61 \<le> u" "u \<le> 0x7A"
    unfolding is_letter_def by blast
  then show "ascii_letter u"
  proof cases
    case 1
    from between[OF 1] show ?thesis
      by (auto simp add: ascii_letter_def units_def upt_rec)
  next
    case 2
    from between[OF 2] show ?thesis
      by (auto simp add: ascii_letter_def units_def upt_rec)
  qed
next
  assume "ascii_letter u"
  then show "is_letter u"
    unfolding ascii_letter_def units_def is_letter_def by auto
qed

lemma is_word_eq: "is_word u = word_character u"
proof
  assume "is_word u"
  then consider "0x30 \<le> u" "u \<le> 0x39" | "0x41 \<le> u" "u \<le> 0x5A" | "u = 0x5F"
    | "0x61 \<le> u" "u \<le> 0x7A"
    unfolding is_word_def by blast
  then show "word_character u"
  proof cases
    case 1
    from between[OF 1] show ?thesis
      by (auto simp add: word_character_def units_def upt_rec)
  next
    case 2
    from between[OF 2] show ?thesis
      by (auto simp add: word_character_def units_def upt_rec)
  next
    case 3
    then show ?thesis
      by (simp add: word_character_def units_def)
  next
    case 4
    from between[OF 4] show ?thesis
      by (auto simp add: word_character_def units_def upt_rec)
  qed
next
  assume "word_character u"
  then show "is_word u"
    unfolding word_character_def units_def is_word_def by auto
qed

lemma is_space_eq: "is_space u = white_space u"
proof
  assume "is_space u"
  then consider "0x09 \<le> u" "u \<le> 0x0D" | "0x2000 \<le> u" "u \<le> 0x200A"
    | "u \<in> {0x20, 0xA0, 0x1680, 0x2028, 0x2029, 0x202F, 0x205F, 0x3000, 0xFEFF}"
    unfolding is_space_def by blast
  then show "white_space u"
  proof cases
    case 1
    from between[OF 1] show ?thesis
      by (auto simp add: white_space_def upt_rec)
  next
    case 2
    from between[OF 2] show ?thesis
      by (auto simp add: white_space_def upt_rec)
  next
    case 3
    then show ?thesis
      by (auto simp add: white_space_def)
  qed
next
  assume "white_space u"
  then show "is_space u"
    unfolding white_space_def is_space_def by auto
qed

lemma class_eqs:
  "white_space = is_space" "word_character = is_word" "ascii_letter = is_letter"
  by (rule ext, simp add: is_space_eq is_word_eq is_letter_eq)+

lemma space_not_word: "is_space u \<Longrightarrow> \<not> is_word u"
  unfolding is_space_def is_word_def
  by (auto simp add: word_le_nat_alt)

lemma word_not_punct: "is_word u \<Longrightarrow> u \<noteq> 0x3D \<and> u \<noteq> 0x28"
  unfolding is_word_def by auto

lemma match_member: "match_here re_member_ethers cs = letter_dot_ethers cs"
proof (cases cs)
  case Nil
  then show ?thesis by (simp add: re_member_ethers_def letter_dot_ethers_def)
next
  case (Cons c r)
  then show ?thesis
    by (simp add: re_member_ethers_def letter_dot_ethers_def match_literal occurrence_def
        units_def class_eqs)
qed

lemma literal_Cons: "literal (a # w) = ((\<lambda>u. u = of_char a), Once) # literal w"
  by (simp add: literal_def)

lemma match_var: "match_here re_minified_require cs = var_declaration cs"
proof -
  let ?tail = \<open>literal ''("ethers");''\<close>
  let ?r3 = "[(is_word, OneOrMore)] @ ?tail"
  let ?r2 = "literal ''='' @ ?r3"
  let ?r1 = "(is_word, OneOrMore) # ?r2"
  have f3: "match_here ?tail (c # r) = None" if "is_word c" for c r
    using word_not_punct[OF that] by (simp add: literal_Cons)
  have f2: "match_here ?r2 (c # r) = None" if "is_word c" for c r
    using word_not_punct[OF that] by (simp add: literal_Cons)
  have f1: "match_here ?r1 (c # r) = None" if "is_space c" for c r
    using space_not_word[OF that] by simp
  have m3: "match_here ?r3 r =
     (if takeWhile is_word r = [] then None
      else map_option (\<lambda>k. length (takeWhile is_word r) + k)
             (occurrence (units ''(\"ethers\");'') (dropWhile is_word r)))" for r
    using match_plus[of is_word ?tail r, OF f3] by (simp add: match_literal)
  have m1: "match_here ?r1 r =
     (if takeWhile is_word r = [] then None
      else map_option (\<lambda>k. length (takeWhile is_word r) + k)
             (match_here ?r2 (dropWhile is_word r)))" for r
    using match_plus[of is_word ?r2 r, OF f2] by simp
  have m0: "match_here ((is_space, OneOrMore) # ?r1) r =
     (if takeWhile is_space r = [] then None
      else map_option (\<lambda>k. length (takeWhile is_space r) + k)
             (match_here ?r1 (dropWhile is_space r)))" for r
    using match_plus[of is_space ?r1 r, OF f1] by simp
  have re: "re_minified_require = literal ''var'' @ ((is_space, OneOrMore) # ?r1)"
    by (simp add: re_minified_require_def)
  show ?thesis
    unfolding re match_literal_append m0 m1 m3
    unfolding match_literal_append[of "''=''" ?r3] m3 var_declaration_def class_eqs Let_def
      occurrence_def
    by (auto simp add: units_def eval_nat_numeral)
qed

lemma occurrence_nonempty: "w \<noteq> [] \<Longrightarrow> occurrence w cs \<noteq> Some 0 \<and> occurrence w [] = None"
  by (simp add: occurrence_def)

lemma replace_literal:
  "w \<noteq> [] \<Longrightarrow> replace (literal w) rep cs = replace_matches (occurrence (units w)) rep cs"
  by (rule replace_eq_replace_matches)
    (simp_all add: match_literal occurrence_def units_def)

lemma replace_var: "replace re_minified_require rep cs = replace_matches var_declaration rep cs"
  by (rule replace_eq_replace_matches)
    (simp_all add: match_var, simp_all add: var_declaration_def Let_def units_def)

lemma replace_member:
  "replace re_member_ethers rep cs = replace_matches letter_dot_ethers rep cs"
  by (rule replace_eq_replace_matches)
    (simp_all add: match_member, simp_all add: letter_dot_ethers_def split: list.splits)

lemma strip_ethers_spec: "strip_ethers t = spec_transform t"
  by (simp add: strip_ethers_def spec_transform_def Let_def re_require_ethers_def
      re_import_ethers_dot_def replace_literal replace_var replace_member)

text \<open>getPkps as a whole, once its own requirement check has passed.\<close>

lemma perform_getPkps_run:
  assumes "fst (priv_checkRequirements FN_getPkps this) = Inr ()"
  shows "events (snd (perform E GetPkps this)) =
           events (snd (getPkps_action E (this\<lparr>ticks := Suc (ticks this)\<rparr>)))"
    and "fst (perform E GetPkps this) = Inr ret \<Longrightarrow>
           \<exists>pkps. fst (getPkps_action E (this\<lparr>ticks := Suc (ticks this)\<rparr>)) = Inr pkps"
proof -
  have chk: "priv_checkRequirements FN_getPkps this = (Inr (), this)"
    using checkRequirements_pair[of FN_getPkps this] assms by simp
  have eq: "perform E GetPkps this =
      io_bind (priv_run E ''Get PKPs'' FN_getPkps (getPkps_action E))
        (\<lambda>res. io_return (Pkps res)) this"
    by (simp add: getPkps_def io_bind_def chk)
  show "events (snd (perform E GetPkps this)) =
      events (snd (getPkps_action E (this\<lparr>ticks := Suc (ticks this)\<rparr>)))"
    unfolding eq
    by (simp add: priv_run_check_passes[OF assms] io_bind_def io_return_def
        split: prod.splits sum.splits)
  show "fst (perform E GetPkps this) = Inr ret \<Longrightarrow>
      \<exists>pkps. fst (getPkps_action E (this\<lparr>ticks := Suc (ticks this)\<rparr>)) = Inr pkps"
    unfolding eq
    by (simp add: priv_run_check_passes[OF assms] io_bind_def io_return_def
        split: prod.splits sum.splits)
qed

section \<open>Lemmas about what the actions throw\<close>

lemma throwsD: "throws_only A m \<Longrightarrow> m s = (Inl e, s') \<Longrightarrow> e \<in> A"
  unfolding throws_only_def by blast

lemma throws_plain:
  "throws_only A (io_return x)" "throws_only A io_get" "throws_only A (io_modify f)"
  "throws_only A (new_object c)" "throws_only A (priv_setOutput fn v i)"
  by (simp_all add: throws_only_def io_return_def io_get_def io_modify_def new_object_def
      priv_setOutput_def)




lemma throws_bind:
  assumes "throws_only A m" and "\<And>x. throws_only A (k x)"
  shows "throws_only A (io_bind m k)"
  unfolding throws_only_def
proof (intro allI impI)
  fix s e s'
  assume run: "io_bind m k s = (Inl e, s')"
  obtain r s1 where ms: "m s = (r, s1)" by (cases "m s")
  show "e \<in> A"
  proof (cases r)
    case (Inl e1)
    then show ?thesis
      using run ms throwsD[OF assms(1), of s e1 s1] by (simp add: io_bind_def)
  next
    case (Inr x)
    then show ?thesis
      using run ms throwsD[OF assms(2), of x s1 e s'] by (simp add: io_bind_def)
  qed
qed















lemma throws_returning:
  "throws_only A m \<Longrightarrow> throws_only A (io_bind m (\<lambda>x. io_return (g x)))"
  by (intro throws_bind throws_plain)


section \<open>Lemmas about the rounding of quotients\<close>




section \<open>Lemmas about JSON strings\<close>

lemma hex_value_digit: "d < 16 \<Longrightarrow> hex_value (hex_digit d) = Some d"
  unfolding hex_value_def hex_digit_def
  by (simp add: word_le_nat_alt word_less_nat_alt unat_word_ariths unat_sub)

lemma nibble_drop: "drop_bit 12 (u :: 16 word) < 16"
proof -
  have "unat u < 2 ^ 16"
    using unsigned_less[of u] by simp
  then have "unat u div 2 ^ 12 < 16"
    by simp
  then have "drop_bit 12 (unat u) < 16"
    by (simp add: drop_bit_eq_div)
  then show ?thesis
    by (simp add: word_less_nat_alt unat_drop_bit_eq)
qed

lemma nibble_take: "take_bit 4 (v :: 16 word) < 16"
  using take_bit_nat_less_exp[of 4 "unat v"]
  by (simp add: word_less_nat_alt unsigned_take_bit_eq)

lemma nibbles_join:
  "push_bit 12 (drop_bit 12 u) OR push_bit 8 (take_bit 4 (drop_bit 8 u)) OR
     push_bit 4 (take_bit 4 (drop_bit 4 u)) OR take_bit 4 u = (u :: 16 word)"
proof (rule bit_word_eqI)
  fix n :: nat
  assume "n < LENGTH(16)"
  then consider "n < 4" | "4 \<le> n" "n < 8" | "8 \<le> n" "n < 12" | "12 \<le> n" "n < 16"
    by fastforce
  then show "bit (push_bit 12 (drop_bit 12 u) OR push_bit 8 (take_bit 4 (drop_bit 8 u)) OR
     push_bit 4 (take_bit 4 (drop_bit 4 u)) OR take_bit 4 u) n = bit u n"
    by cases (auto simp add: bit_simps)
qed

lemma four_hex_escape:
  "four_hex (hex_digit (drop_bit 12 u)) (hex_digit (take_bit 4 (drop_bit 8 u)))
     (hex_digit (take_bit 4 (drop_bit 4 u))) (hex_digit (take_bit 4 u)) = Some u"
  by (simp add: four_hex_def hex_value_digit nibble_drop nibble_take nibbles_join)

lemma string_value_quote_unit:
  "string_value (quote_unit u @ rest) = map_option (\<lambda>us. u # us) (string_value rest)"
proof -
  consider (escaped) "u \<in> {0x08, 0x09, 0x0A, 0x0C, 0x0D, 0x22, 0x5C}"
    | (unicode) "u \<notin> {0x08, 0x09, 0x0A, 0x0C, 0x0D, 0x22, 0x5C}"
        "u < 0x20 \<or> is_leading_surrogate u \<or> is_trailing_surrogate u"
    | (plain) "u \<notin> {0x08, 0x09, 0x0A, 0x0C, 0x0D, 0x22, 0x5C}"
        "\<not> (u < 0x20 \<or> is_leading_surrogate u \<or> is_trailing_surrogate u)"
    by blast
  then show ?thesis
  proof cases
    case escaped
    then show ?thesis
      by (auto simp add: quote_unit_def escaped_unit_def)
  next
    case unicode
    then have "quote_unit u = unicode_escape u"
      by (simp add: quote_unit_def)
    then show ?thesis
      by (simp add: unicode_escape_def four_hex_escape)
  next
    case plain
    then have "quote_unit u = [u]"
      by (simp add: quote_unit_def)
    then show ?thesis
      using plain by simp
  qed
qed

lemma surrogate_plain:
  assumes "is_leading_surrogate u \<or> is_trailing_surrogate u"
  shows "u \<noteq> 0x5C" "u \<noteq> 0x22" "\<not> u < 0x20"
  using assms
  by (auto simp add: is_leading_surrogate_def is_trailing_surrogate_def word_le_nat_alt
      word_less_nat_alt)

lemma string_value_quote_units: "string_value (quote_units s) = Some s"
proof (induction s rule: quote_units.induct)
  case 1
  show ?case by simp
next
  case (2 u)
  show ?case
    using string_value_quote_unit[of u "[]"] by simp
next
  case (3 u v us)
  show ?case
  proof (cases "is_leading_surrogate u \<and> is_trailing_surrogate v")
    case True
    then have "quote_units (u # v # us) = u # v # quote_units us"
      by simp
    moreover have "string_value (u # v # quote_units us) = Some (u # v # us)"
      using 3(1)[OF True] surrogate_plain[of u] surrogate_plain[of v] True by simp
    ultimately show ?thesis by (simp only:)
  next
    case False
    then have "quote_units (u # v # us) = quote_unit u @ quote_units (v # us)"
      by auto
    moreover have "string_value (quote_unit u @ quote_units (v # us)) = Some (u # v # us)"
      unfolding string_value_quote_unit using 3(2)[OF False] by simp
    ultimately show ?thesis by (simp only:)
  qed
qed

lemma JSON_string_value_stringify: "JSON_string_value (JSON_stringify s) = Some s"
  by (simp add: JSON_string_value_def JSON_stringify_def string_value_quote_units)

section \<open>Execution times\<close>



section \<open>Errors\<close>




section \<open>Requirement checks\<close>

text \<open>
  Claim C5, as amended. The requirement check of an operation runs inside its runner,
  ahead of the action and so ahead of every vendor call the action makes (getPkps runs
  it once more on its own, ahead of the runner). When it throws, the runner throws its
  message behind \<open>Error in <operation name>: \<close>: connectToLitNodeClient and
  connectToLitContracts fail with \<open>this.network is required\<close> behind their prefix
  when the network is empty; mintPKP and mintCreditsNFT (given valid parameters) fail
  with \<open>LitContracts is required\<close> behind their prefix when litContracts is not set,
  and with \<open>Signer is required\<close> when litContracts is set and the signer is not;
  getPkps fails with the same two messages as they are. In all these cases the instance
  is left as it was but for the one reading of the clock by the runner: no vendor call
  has been made and no output written. For every operation whose requirement check
  throws, the operation throws, the output cache is unchanged and no call has been
  awaited; the only vendor objects made are the resources that createAccessToken
  constructs from its parameters before it enters the runner.
\<close>

theorem requirement_checks:
  "(network this = [] \<longrightarrow>
      connectToLitNodeClient E p this =
        (Inl (Error (''Error in LitNodeClient connection: '' @ cross_mark @
                     '' this.network is required'')),
         this\<lparr>ticks := Suc (ticks this)\<rparr>) \<and>
      connectToLitContracts E p this =
        (Inl (Error (''Error in LitContracts connection: '' @ cross_mark @
                     '' this.network is required'')),
         this\<lparr>ticks := Suc (ticks this)\<rparr>)) \<and>
   (litContracts this = None \<longrightarrow>
      mintPKP E mp this =
        (Inl (Error (''Error in Mint PKP: '' @ cross_mark @ '' LitContracts is required'')),
         this\<lparr>ticks := Suc (ticks this)\<rparr>) \<and>
      (requestsPerKilosecond cp \<noteq> 0 \<and> daysUntilUTCMidnightExpiration cp \<noteq> 0 \<longrightarrow>
         mintCreditsNFT E cp this =
           (Inl (Error (''Error in Mint Credits Token: '' @ cross_mark @
                        '' LitContracts is required'')),
            this\<lparr>ticks := Suc (ticks this)\<rparr>)) \<and>
      getPkps E this = (Inl (Error (cross_mark @ '' LitContracts is required'')), this)) \<and>
   (litContracts this \<noteq> None \<and> signer this = None \<longrightarrow>
      mintPKP E mp this =
        (Inl (Error (''Error in Mint PKP: '' @ cross_mark @ '' Signer is required'')),
         this\<lparr>ticks := Suc (ticks this)\<rparr>) \<and>
      (requestsPerKilosecond cp \<noteq> 0 \<and> daysUntilUTCMidnightExpiration cp \<noteq> 0 \<longrightarrow>
         mintCreditsNFT E cp this =
           (Inl (Error (''Error in Mint Credits Token: '' @ cross_mark @
                        '' Signer is required'')),
            this\<lparr>ticks := Suc (ticks this)\<rparr>)) \<and>
      getPkps E this = (Inl (Error (cross_mark @ '' Signer is required'')), this)) \<and>
   (fst (priv_checkRequirements (fnName op) this) = Inl e \<longrightarrow>
      (\<exists>m. e = Error m \<and>
         (fst (perform E op this) = Inl (Error (''Error in '' @ opName op @ '': '' @ m)) \<or>
          op = GetPkps \<and> fst (perform E op this) = Inl e \<or>
          (\<exists>e' \<in> validation_errors op. fst (perform E op this) = Inl e'))) \<and>
      outputs (snd (perform E op this)) = outputs this \<and>
      (\<exists>rs. events (snd (perform E op this)) =
              events this @ map (\<lambda>r. Called (New_resource r)) rs \<and>
            ((\<forall>q. op \<noteq> CreateAccessToken q) \<longrightarrow> rs = [])))"
proof (intro conjI impI)
  assume "network this = []"
  then have "fst (priv_checkRequirements FN_connectToLitNodeClient this) =
      Inl (Error (cross_mark @ '' this.network is required''))"
    and "fst (priv_checkRequirements FN_connectToLitContracts this) =
      Inl (Error (cross_mark @ '' this.network is required''))"
    by (simp_all add: require_defs)
  then show "connectToLitNodeClient E p this =
        (Inl (Error (''Error in LitNodeClient connection: '' @ cross_mark @
                     '' this.network is required'')),
         this\<lparr>ticks := Suc (ticks this)\<rparr>)"
    and "connectToLitContracts E p this =
        (Inl (Error (''Error in LitContracts connection: '' @ cross_mark @
                     '' this.network is required'')),
         this\<lparr>ticks := Suc (ticks this)\<rparr>)"
    by (simp_all add: connectToLitNodeClient_def connectToLitContracts_def
        priv_run_check_fails)
next
  assume none: "litContracts this = None"
  then have pkp: "fst (priv_checkRequirements FN_mintPKP this) =
      Inl (Error (cross_mark @ '' LitContracts is required''))"
    and credits: "fst (priv_checkRequirements FN_mintCreditsNFT this) =
      Inl (Error (cross_mark @ '' LitContracts is required''))"
    and pkps: "fst (priv_checkRequirements FN_getPkps this) =
      Inl (Error (cross_mark @ '' LitContracts is required''))"
    by (simp_all add: require_defs)
  show "mintPKP E mp this =
        (Inl (Error (''Error in Mint PKP: '' @ cross_mark @ '' LitContracts is required'')),
         this\<lparr>ticks := Suc (ticks this)\<rparr>)"
    by (simp add: mintPKP_def priv_run_check_fails[OF pkp])
  show "getPkps E this = (Inl (Error (cross_mark @ '' LitContracts is required'')), this)"
    using checkRequirements_pair[of FN_getPkps this] pkps
    by (simp add: getPkps_def io_bind_def)
  assume "requestsPerKilosecond cp \<noteq> 0 \<and> daysUntilUTCMidnightExpiration cp \<noteq> 0"
  then show "mintCreditsNFT E cp this =
           (Inl (Error (''Error in Mint Credits Token: '' @ cross_mark @
                        '' LitContracts is required'')),
            this\<lparr>ticks := Suc (ticks this)\<rparr>)"
    by (simp add: mintCreditsNFT_def priv_run_check_fails[OF credits])
next
  assume some: "litContracts this \<noteq> None \<and> signer this = None"
  then have pkp: "fst (priv_checkRequirements FN_mintPKP this) =
      Inl (Error (cross_mark @ '' Signer is required''))"
    and credits: "fst (priv_checkRequirements FN_mintCreditsNFT this) =
      Inl (Error (cross_mark @ '' Signer is required''))"
    and pkps: "fst (priv_checkRequirements FN_getPkps this) =
      Inl (Error (cross_mark @ '' Signer is required''))"
    by (auto simp add: require_defs)
  show "mintPKP E mp this =
        (Inl (Error (''Error in Mint PKP: '' @ cross_mark @ '' Signer is required'')),
         this\<lparr>ticks := Suc (ticks this)\<rparr>)"
    by (simp add: mintPKP_def priv_run_check_fails[OF pkp])
  show "getPkps E this = (Inl (Error (cross_mark @ '' Signer is required'')), this)"
    using checkRequirements_pair[of FN_getPkps this] pkps
    by (simp add: getPkps_def io_bind_def)
  assume "requestsPerKilosecond cp \<noteq> 0 \<and> daysUntilUTCMidnightExpiration cp \<noteq> 0"
  then show "mintCreditsNFT E cp this =
           (Inl (Error (''Error in Mint Credits Token: '' @ cross_mark @
                        '' Signer is required'')),
            this\<lparr>ticks := Suc (ticks this)\<rparr>)"
    by (simp add: mintCreditsNFT_def priv_run_check_fails[OF credits])
next
  assume chk: "fst (priv_checkRequirements (fnName op) this) = Inl e"
  obtain m where m: "e = Error m"
    using checkRequirements_errors[OF chk] by auto
  obtain rs where rs: "entering op this =
      this\<lparr>events := events this @ map (\<lambda>r. Called (New_resource r)) rs\<rparr>"
      "(\<forall>q. op \<noteq> CreateAccessToken q) \<longrightarrow> rs = []"
    using entering_events[of op this] by blast
  note shape = perform_check_fails[OF chk, of E]
  show "\<exists>m. e = Error m \<and>
         (fst (perform E op this) = Inl (Error (''Error in '' @ opName op @ '': '' @ m)) \<or>
          op = GetPkps \<and> fst (perform E op this) = Inl e \<or>
          (\<exists>e' \<in> validation_errors op. fst (perform E op this) = Inl e'))"
    using shape m by (intro exI[of _ m]) auto
  show "outputs (snd (perform E op this)) = outputs this"
    using shape by auto
  from shape show "\<exists>rs. events (snd (perform E op this)) =
              events this @ map (\<lambda>r. Called (New_resource r)) rs \<and>
            ((\<forall>q. op \<noteq> CreateAccessToken q) \<longrightarrow> rs = [])"
  proof (elim disjE)
    assume "perform E op this =
      (Inl (rethrown E (opName op) e), (entering op this)\<lparr>ticks := Suc (ticks this)\<rparr>)"
    then have "events (snd (perform E op this)) =
        events this @ map (\<lambda>r. Called (New_resource r)) rs"
      using rs(1) by simp
    with rs(2) show ?thesis by blast
  next
    assume g: "op = GetPkps \<and> perform E op this = (Inl e, this)"
    then have "perform E op this = (Inl e, this)" by (rule conjunct2)
    then have "events (snd (perform E op this)) =
        events this @ map (\<lambda>r. Called (New_resource r)) []"
      by simp
    then show ?thesis by blast
  next
    assume "\<exists>e' \<in> validation_errors op. \<exists>rs.
        perform E op this =
          (Inl e', this\<lparr>events := events this @ map (\<lambda>r. Called (New_resource r)) rs\<rparr>) \<and>
        ((\<forall>p. op \<noteq> CreateAccessToken p) \<longrightarrow> rs = [])"
    then obtain e' rs' where "perform E op this =
          (Inl e', this\<lparr>events := events this @ map (\<lambda>r. Called (New_resource r)) rs'\<rparr>)"
      and "(\<forall>p. op \<noteq> CreateAccessToken p) \<longrightarrow> rs' = []"
      by blast
    then show ?thesis by (intro exI[of _ rs']) simp
  qed
qed

text \<open>
  The claim as it was stated fails twice. mintPKP on an instance without litContracts
  does not throw the message of the check but that message behind the prefix of the
  runner. And createAccessToken on an instance without litNodeClient has constructed its
  resource, a vendor object, by the time its requirement check throws.
\<close>

theorem requirement_error_prefixed_counterexample:
  "fst (mintPKP demo_env mint_params alice_new) =
     Inl (Error (''Error in Mint PKP: '' @ cross_mark @ '' LitContracts is required'')) \<and>
   fst (mintPKP demo_env mint_params alice_new) \<noteq>
     Inl (Error (cross_mark @ '' LitContracts is required'')) \<and>
   fst (priv_checkRequirements FN_createAccessToken alice_new) =
     Inl (Error (cross_mark @ '' LitNodeClient is required'')) \<and>
   createAccessToken demo_env (token_params\<lparr>code := Some ''go()''\<rparr>) alice_new =
     (Inl (Error (''Error in Create Access Token: '' @ cross_mark @
                  '' LitNodeClient is required'')),
      alice_new\<lparr>ticks := 1, events := [Called (New_resource (LitPKPResource ''*''))]\<rparr>)"
  by (simp add: mintPKP_def createAccessToken_def mint_params_def token_params_def
      io_defs class_defs demo_defs)

theorem requirement_checks_witness:
  "connectToLitNodeClient demo_env \<lparr>outputId = None\<rparr> (alice_new\<lparr>network := []\<rparr>) =
     (Inl (Error (''Error in LitNodeClient connection: '' @ cross_mark @
                  '' this.network is required'')),
      alice_new\<lparr>network := [], ticks := 1\<rparr>) \<and>
   mintPKP demo_env mint_params alice_new =
     (Inl (Error (''Error in Mint PKP: '' @ cross_mark @ '' LitContracts is required'')),
      alice_new\<lparr>ticks := 1\<rparr>) \<and>
   mintCreditsNFT demo_env credits_params (alice\<lparr>signer := None\<rparr>) =
     (Inl (Error (''Error in Mint Credits Token: '' @ cross_mark @ '' Signer is required'')),
      alice\<lparr>signer := None, ticks := 5\<rparr>) \<and>
   getPkps demo_env alice_new =
     (Inl (Error (cross_mark @ '' LitContracts is required'')), alice_new) \<and>
   outputs (snd (perform demo_env (CreateAccessToken (token_params\<lparr>code := Some ''go()''\<rparr>))
              alice_new)) = outputs alice_new \<and>
   (\<exists>rs. events (snd (perform demo_env (CreateAccessToken (token_params\<lparr>code := Some ''go()''\<rparr>))
                    alice_new)) = map (\<lambda>r. Called (New_resource r)) rs)"
proof -
  let ?op = "CreateAccessToken (token_params\<lparr>code := Some ''go()''\<rparr>)"
  let ?e = "Error (cross_mark @ '' LitNodeClient is required'')"
  have a: "network (alice_new\<lparr>network := []\<rparr>) = []"
    and b: "litContracts alice_new = None"
    and c: "litContracts (alice\<lparr>signer := None\<rparr>) \<noteq> None"
      "signer (alice\<lparr>signer := None\<rparr>) = None"
    and t: "ticks alice_new = 0" "ticks alice = 4" and ev: "events alice_new = []"
    and v: "requestsPerKilosecond credits_params \<noteq> 0"
      "daysUntilUTCMidnightExpiration credits_params \<noteq> 0"
    by (simp_all add: demo_defs credits_params_def)
  have chk: "fst (priv_checkRequirements (fnName ?op) alice_new) = Inl ?e"
    by (simp add: require_defs demo_defs)
  have r1: "connectToLitNodeClient demo_env \<lparr>outputId = None\<rparr> (alice_new\<lparr>network := []\<rparr>) =
     (Inl (Error (''Error in LitNodeClient connection: '' @ cross_mark @
                  '' this.network is required'')),
      alice_new\<lparr>network := [], ticks := 1\<rparr>)"
    using requirement_checks[where this = "alice_new\<lparr>network := []\<rparr>" and E = demo_env
      and p = "\<lparr>outputId = None\<rparr>" and mp = mint_params and cp = credits_params
      and op = ?op and e = ?e] a t
    by simp
  note r = requirement_checks[where this = alice_new and E = demo_env
      and p = "\<lparr>outputId = None\<rparr>" and mp = mint_params and cp = credits_params
      and op = ?op and e = ?e]
  have r2: "mintPKP demo_env mint_params alice_new =
     (Inl (Error (''Error in Mint PKP: '' @ cross_mark @ '' LitContracts is required'')),
      alice_new\<lparr>ticks := 1\<rparr>)"
    using r b t by simp
  have r3: "mintCreditsNFT demo_env credits_params (alice\<lparr>signer := None\<rparr>) =
     (Inl (Error (''Error in Mint Credits Token: '' @ cross_mark @ '' Signer is required'')),
      alice\<lparr>signer := None, ticks := 5\<rparr>)"
    using requirement_checks[where this = "alice\<lparr>signer := None\<rparr>" and E = demo_env
      and p = "\<lparr>outputId = None\<rparr>" and mp = mint_params and cp = credits_params
      and op = ?op and e = ?e] c v t
    by simp
  have r4: "getPkps demo_env alice_new =
     (Inl (Error (cross_mark @ '' LitContracts is required'')), alice_new)"
    using r b by simp
  have r5: "outputs (snd (perform demo_env ?op alice_new)) = outputs alice_new"
    using r chk by simp
  have r6: "\<exists>rs. events (snd (perform demo_env ?op alice_new)) =
      map (\<lambda>r. Called (New_resource r)) rs"
    using r chk ev by auto
  show ?thesis
    using r1 r2 r3 r4 r5 r6 by simp
qed

text \<open>
  Claim C8. On an instance with litContracts and a signer but no litNodeClient,
  grantAuthMethodToUsePKP throws an error whose message ends with
  \<open>LitNodeClient is required\<close>: the case of its requirement check has no break and
  runs on into the case of createAccessToken.
\<close>

theorem grantAuthMethod_falls_through:
  "(litContracts this \<noteq> None \<and> signer this \<noteq> None \<and> litNodeClient this = None \<longrightarrow>
      grantAuthMethodToUsePKP E p this =
        (Inl (Error (''Error in Grant Auth Method: '' @ cross_mark @
                     '' LitNodeClient is required'')),
         this\<lparr>ticks := Suc (ticks this)\<rparr>)) \<and>
   priv_checkRequirements FN_grantAuthMethodToUsePKP this =
     io_bind (io_bind require_litContracts (\<lambda>_. require_signer))
       (\<lambda>_. priv_checkRequirements FN_createAccessToken) this"
proof (intro conjI impI)
  assume a: "litContracts this \<noteq> None \<and> signer this \<noteq> None \<and> litNodeClient this = None"
  then have chk: "fst (priv_checkRequirements FN_grantAuthMethodToUsePKP this) =
      Inl (Error (cross_mark @ '' LitNodeClient is required''))"
    by (auto simp add: require_defs)
  show "grantAuthMethodToUsePKP E p this =
        (Inl (Error (''Error in Grant Auth Method: '' @ cross_mark @
                     '' LitNodeClient is required'')),
         this\<lparr>ticks := Suc (ticks this)\<rparr>)"
    unfolding grantAuthMethodToUsePKP_def Let_def
    by (simp add: priv_run_check_fails[OF chk])
next
  show "priv_checkRequirements FN_grantAuthMethodToUsePKP this =
     io_bind (io_bind require_litContracts (\<lambda>_. require_signer))
       (\<lambda>_. priv_checkRequirements FN_createAccessToken) this"
    by (simp add: require_defs split: prod.splits sum.splits)
qed

theorem grantAuthMethod_falls_through_witness:
  "grantAuthMethodToUsePKP demo_env grant_auth_params (alice\<lparr>litNodeClient := None\<rparr>) =
     (Inl (Error (''Error in Grant Auth Method: '' @ cross_mark @ '' LitNodeClient is required'')),
      alice\<lparr>litNodeClient := None, ticks := 5\<rparr>)"
proof -
  have "litContracts (alice\<lparr>litNodeClient := None\<rparr>) \<noteq> None \<and>
        signer (alice\<lparr>litNodeClient := None\<rparr>) \<noteq> None \<and>
        litNodeClient (alice\<lparr>litNodeClient := None\<rparr>) = None"
    and "ticks (alice\<lparr>litNodeClient := None\<rparr>) = 4"
    by (simp_all add: demo_defs)
  then show ?thesis
    using grantAuthMethod_falls_through[where this = "alice\<lparr>litNodeClient := None\<rparr>"
        and E = demo_env and p = grant_auth_params]
    by simp
qed

section \<open>Validation of createAccessToken\<close>

text \<open>
  Claim C10. createAccessToken with the type custom_auth throws
  \<open>Either code or ipfsCid must be provided\<close> when neither is given and
  \<open>Only one of code or ipfsCid should be provided, not both\<close> when both are. In
  both cases the instance is returned as it was: no vendor call has been made and the
  output cache is unchanged.
\<close>

theorem createAccessToken_code_or_ipfsCid:
  "(auth_type p = ''custom_auth'' \<and> \<not> truthy (code p) \<and> \<not> truthy (ipfsCid p) \<longrightarrow>
      createAccessToken E p this =
        (Inl (Error ''Either code or ipfsCid must be provided''), this)) \<and>
   (auth_type p = ''custom_auth'' \<and> truthy (code p) \<and> truthy (ipfsCid p) \<longrightarrow>
      createAccessToken E p this =
        (Inl (Error ''Only one of code or ipfsCid should be provided, not both''), this)) \<and>
   (auth_type p = ''custom_auth'' \<and> truthy (code p) = truthy (ipfsCid p) \<longrightarrow>
      events (snd (createAccessToken E p this)) = events this \<and>
      outputs (snd (createAccessToken E p this)) = outputs this)"
  by (auto simp add: createAccessToken_def io_bind_def io_when_def io_throw_def)

theorem createAccessToken_code_or_ipfsCid_witness:
  "createAccessToken demo_env token_params alice =
     (Inl (Error ''Either code or ipfsCid must be provided''), alice) \<and>
   createAccessToken demo_env
       (token_params\<lparr>code := Some ''go()'', ipfsCid := Some ''QmExample''\<rparr>) alice =
     (Inl (Error ''Only one of code or ipfsCid should be provided, not both''), alice) \<and>
   events (snd (createAccessToken demo_env token_params alice)) = events alice \<and>
   outputs (snd (createAccessToken demo_env token_params alice)) = outputs alice"
  using createAccessToken_code_or_ipfsCid[where p = token_params and E = demo_env and this = alice]
    createAccessToken_code_or_ipfsCid[where
      p = "token_params\<lparr>code := Some ''go()'', ipfsCid := Some ''QmExample''\<rparr>"
      and E = demo_env and this = alice]
  by (simp add: token_params_def)

section \<open>The output cache\<close>

text \<open>
  Claim C2. After an output v is stored for a function name with no outputId, getOutput of
  that name returns v; when w is stored for it later, getOutput returns w; and storing an
  output for a name leaves the cached outputs of every other name as they were. So for
  the operations: one that completes with no outputId leaves an output under its name,
  and no operation touches the entries of other names.
\<close>

theorem output_cache_last_write_wins:
  "getOutput (snd (priv_setOutput fn v None this)) fn None = Some v \<and>
   getOutput (snd (priv_setOutput fn w None (snd (priv_setOutput fn v None this)))) fn None =
     Some w \<and>
   (fn' \<noteq> fn \<longrightarrow>
      getOutput (snd (priv_setOutput fn v i this)) fn' i' = getOutput this fn' i') \<and>
   (op \<noteq> GetPkps \<and> \<not> truthy (outputId_of op) \<and> perform E op this = (Inr r, this') \<longrightarrow>
      (\<exists>out. getOutput this' (fnName op) None = Some out)) \<and>
   (op \<noteq> GetPkps \<and> fn' \<noteq> fnName op \<and> perform E op this = (res, this') \<longrightarrow>
      getOutput this' fn' i' = getOutput this fn' i')"
proof (intro conjI impI)
  show "getOutput (snd (priv_setOutput fn v None this)) fn None = Some v"
    by (simp add: getOutput_def priv_setOutput_def io_modify_def)
  show "getOutput (snd (priv_setOutput fn w None (snd (priv_setOutput fn v None this)))) fn None =
     Some w"
    by (simp add: getOutput_def priv_setOutput_def io_modify_def)
next
  assume "fn' \<noteq> fn"
  then have "output_key fn' i' \<noteq> output_key fn i"
    using output_key_inj by blast
  then show "getOutput (snd (priv_setOutput fn v i this)) fn' i' = getOutput this fn' i'"
    by (simp add: getOutput_def priv_setOutput_def io_modify_def)
next
  assume a: "op \<noteq> GetPkps \<and> \<not> truthy (outputId_of op) \<and> perform E op this = (Inr r, this')"
  then obtain out where
    "outputs this' = (outputs this)(output_key (fnName op) (outputId_of op) \<mapsto> out)"
    using perform_outputs[of op E this "Inr r" this'] by auto
  moreover have "output_key (fnName op) (outputId_of op) = FN (fnName op)"
    using a by (simp add: output_key_plain)
  ultimately show "\<exists>out. getOutput this' (fnName op) None = Some out"
    by (simp add: getOutput_def output_key_def)
next
  assume a: "op \<noteq> GetPkps \<and> fn' \<noteq> fnName op \<and> perform E op this = (res, this')"
  then have k: "output_key fn' i' \<noteq> output_key (fnName op) (outputId_of op)"
    using output_key_inj by blast
  show "getOutput this' fn' i' = getOutput this fn' i'"
    using perform_outputs[of op E this res this'] a k
    by (cases res) (auto simp add: getOutput_def)
qed

theorem output_cache_last_write_wins_witness:
  "getOutput (snd (priv_setOutput FN_mintPKP (Out_CreditsToken ''7'') (Some ''x'') alice))
     FN_mintCreditsNFT None = getOutput alice FN_mintCreditsNFT None \<and>
   (\<exists>out. getOutput (snd (perform demo_env (MintCreditsNFT credits_params) alice))
            FN_mintCreditsNFT None = Some out) \<and>
   getOutput (snd (perform demo_env (MintCreditsNFT credits_params) alice)) FN_mintPKP None =
     getOutput alice FN_mintPKP None"
proof -
  let ?q = "perform demo_env (MintCreditsNFT credits_params) alice"
  have "fst ?q = Inr This"
    by (simp add: mintCreditsNFT_def credits_params_def io_defs class_defs demo_defs)
  then have q: "?q = (Inr This, snd ?q)" by (simp add: prod_eq_iff)
  note t = output_cache_last_write_wins[where fn = FN_mintPKP and fn' = FN_mintCreditsNFT
      and v = "Out_CreditsToken ''7''" and w = "Out_CreditsToken ''8''" and i = "Some ''x''"
      and i' = None and this = alice and op = "MintCreditsNFT credits_params" and E = demo_env
      and r = This and res = "Inr This" and this' = "snd ?q"]
  note u = output_cache_last_write_wins[where fn = FN_mintCreditsNFT and fn' = FN_mintPKP
      and v = "Out_CreditsToken ''7''" and w = "Out_CreditsToken ''8''" and i = "Some ''x''"
      and i' = None and this = alice and op = "MintCreditsNFT credits_params" and E = demo_env
      and r = This and res = "Inr This" and this' = "snd ?q"]
  have a: "getOutput (snd (priv_setOutput FN_mintPKP (Out_CreditsToken ''7'') (Some ''x'') alice))
     FN_mintCreditsNFT None = getOutput alice FN_mintCreditsNFT None"
    using t by simp
  have b: "\<exists>out. getOutput (snd ?q) FN_mintCreditsNFT None = Some out"
    using t q by (simp add: credits_params_def)
  have c: "getOutput (snd ?q) FN_mintPKP None = getOutput alice FN_mintPKP None"
    using u q by simp
  show ?thesis using a b c by simp
qed

text \<open>
  Claim C3, as amended. The result cache is keyed by the step name and the outputId of the
  run: an operation that stores an output (all but getPkps) and completes writes exactly
  one entry, under the step name when the outputId is absent or empty, so that getOutput
  of the name returns it, and under \<open>name:outputId\<close> otherwise, where getOutput with
  that outputId returns it and the entry under the bare name stays as it was.
\<close>

theorem output_stored_under_step_and_id:
  "op \<noteq> GetPkps \<and> perform E op this = (Inr r, this') \<longrightarrow>
     (\<exists>out. outputs this' =
              (outputs this)(output_key (fnName op) (outputId_of op) \<mapsto> out) \<and>
            getOutput this' (fnName op) (outputId_of op) = Some out \<and>
            (\<not> truthy (outputId_of op) \<longrightarrow> getOutput this' (fnName op) None = Some out) \<and>
            (truthy (outputId_of op) \<longrightarrow>
               getOutput this' (fnName op) None = getOutput this (fnName op) None))"
proof
  assume a: "op \<noteq> GetPkps \<and> perform E op this = (Inr r, this')"
  then obtain out where out:
    "outputs this' = (outputs this)(output_key (fnName op) (outputId_of op) \<mapsto> out)"
    using perform_outputs[of op E this "Inr r" this'] by auto
  have plain: "\<not> truthy (outputId_of op) \<Longrightarrow> getOutput this' (fnName op) None = Some out"
    using out output_key_plain[of "outputId_of op" "fnName op"]
    by (simp add: getOutput_def output_key_def)
  have keyed: "truthy (outputId_of op) \<Longrightarrow>
      getOutput this' (fnName op) None = getOutput this (fnName op) None"
    using out output_key_keyed[of "outputId_of op" "fnName op"]
    by (simp add: getOutput_def output_key_def)
  from out plain keyed
  show "\<exists>out. outputs this' =
              (outputs this)(output_key (fnName op) (outputId_of op) \<mapsto> out) \<and>
            getOutput this' (fnName op) (outputId_of op) = Some out \<and>
            (\<not> truthy (outputId_of op) \<longrightarrow> getOutput this' (fnName op) None = Some out) \<and>
            (truthy (outputId_of op) \<longrightarrow>
               getOutput this' (fnName op) None = getOutput this (fnName op) None)"
    by (auto simp add: getOutput_def)
qed

text \<open>
  The claim as it was stated fails: after a run of mintCreditsNFT with the outputId a,
  getOutput of the name alone finds nothing.
\<close>

theorem output_with_outputId_counterexample:
  "fst (perform demo_env (MintCreditsNFT (credits_params\<lparr>outputId := Some ''a''\<rparr>)) alice) =
     Inr This \<and>
   getOutput (snd (perform demo_env (MintCreditsNFT (credits_params\<lparr>outputId := Some ''a''\<rparr>))
                     alice))
     FN_mintCreditsNFT None = None \<and>
   getOutput (snd (perform demo_env (MintCreditsNFT (credits_params\<lparr>outputId := Some ''a''\<rparr>))
                     alice))
     FN_mintCreditsNFT (Some ''a'') = Some (Out_CreditsToken ''0xabc'')"
  by (simp add: mintCreditsNFT_def credits_params_def io_defs class_defs demo_defs)

theorem output_stored_under_step_and_id_witness:
  "getOutput (snd (perform demo_env (MintCreditsNFT (credits_params\<lparr>outputId := Some ''a''\<rparr>))
                     alice))
     FN_mintCreditsNFT None = getOutput alice FN_mintCreditsNFT None \<and>
   (\<exists>out. getOutput (snd (perform demo_env (MintCreditsNFT credits_params) alice))
            FN_mintCreditsNFT None = Some out)"
proof -
  let ?p = "credits_params\<lparr>outputId := Some ''a''\<rparr>"
  let ?r = "perform demo_env (MintCreditsNFT ?p) alice"
  let ?q = "perform demo_env (MintCreditsNFT credits_params) alice"
  have "fst ?r = Inr This"
    by (simp add: mintCreditsNFT_def credits_params_def io_defs class_defs demo_defs)
  then have r: "?r = (Inr This, snd ?r)" by (simp add: prod_eq_iff)
  have "fst ?q = Inr This"
    by (simp add: mintCreditsNFT_def credits_params_def io_defs class_defs demo_defs)
  then have q: "?q = (Inr This, snd ?q)" by (simp add: prod_eq_iff)
  have a: "getOutput (snd ?r) FN_mintCreditsNFT None = getOutput alice FN_mintCreditsNFT None"
    using output_stored_under_step_and_id[where op = "MintCreditsNFT ?p" and E = demo_env
        and this = alice and r = This and this' = "snd ?r"] r
    by (auto simp add: credits_params_def)
  have b: "\<exists>out. getOutput (snd ?q) FN_mintCreditsNFT None = Some out"
    using output_stored_under_step_and_id[where op = "MintCreditsNFT credits_params"
        and E = demo_env and this = alice and r = This and this' = "snd ?q"] q
    by (auto simp add: credits_params_def)
  show ?thesis using a b by simp
qed

section \<open>Scopes\<close>

text \<open>
  Claim C9. In grantAuthMethodToUsePKP and in grantIPFSCIDtoUsePKP the scopes passed to the
  contract call are the image of the given list under the numbering no_permission to 0,
  sign_anything to 1 and everything else to 2, element by element, in the same order and
  of the same length.
\<close>

theorem scopes_mapped_to_numbers:
  "(litContracts this \<noteq> None \<and> signer this \<noteq> None \<and> litNodeClient this \<noteq> None \<longrightarrow>
      events (snd (grantAuthMethodToUsePKP E p this)) =
        events this @
        [Issue (AddPermittedAuthMethod (pkpTokenId p) (authMethodId p) (authMethodType p)
                  (map scope_code (scopes p))),
         Settle (AddPermittedAuthMethod (pkpTokenId p) (authMethodId p) (authMethodType p)
                   (map scope_code (scopes p)))]) \<and>
   (litContracts this \<noteq> None \<longrightarrow>
      events (snd (grantIPFSCIDtoUsePKP E q this)) =
        events this @
        [Issue (AddPermittedAction (pkpTokenId q) (grant_ipfsCid q) (map scope_code (scopes q))),
         Settle (AddPermittedAction (pkpTokenId q) (grant_ipfsCid q)
                   (map scope_code (scopes q)))]) \<and>
   length (map scope_code xs) = length xs \<and>
   (\<forall>i < length xs. map scope_code xs ! i = scope_code (xs ! i)) \<and>
   scope_code ''no_permission'' = 0 \<and> scope_code ''sign_anything'' = 1 \<and>
   (x \<noteq> ''no_permission'' \<and> x \<noteq> ''sign_anything'' \<longrightarrow> scope_code x = 2)"
proof (intro conjI impI)
  have sc: "(\<lambda>scope. if scope = ''no_permission'' then 0
                      else if scope = ''sign_anything'' then 1 else 2) = scope_code"
    by (rule ext) (simp add: scope_code_def)
  {
    assume a: "litContracts this \<noteq> None \<and> signer this \<noteq> None \<and> litNodeClient this \<noteq> None"
    then have chk: "fst (priv_checkRequirements FN_grantAuthMethodToUsePKP this) = Inr ()"
      by (auto simp add: require_defs)
    from a show "events (snd (grantAuthMethodToUsePKP E p this)) =
        events this @
        [Issue (AddPermittedAuthMethod (pkpTokenId p) (authMethodId p) (authMethodType p)
                  (map scope_code (scopes p))),
         Settle (AddPermittedAuthMethod (pkpTokenId p) (authMethodId p) (authMethodType p)
                   (map scope_code (scopes p)))]"
      unfolding grantAuthMethodToUsePKP_def grantAuthMethodToUsePKP_action_def Let_def sc
      by (auto simp add: priv_run_check_passes[OF chk] this_litContracts_def priv_setOutput_def
          io_defs split: sum.splits prod.splits)
  }
  {
    assume a: "litContracts this \<noteq> None"
    have chk: "fst (priv_checkRequirements FN_grantIPFSCIDtoUsePKP this) = Inr ()"
      by (simp add: require_defs)
    from a show "events (snd (grantIPFSCIDtoUsePKP E q this)) =
        events this @
        [Issue (AddPermittedAction (pkpTokenId q) (grant_ipfsCid q) (map scope_code (scopes q))),
         Settle (AddPermittedAction (pkpTokenId q) (grant_ipfsCid q)
                   (map scope_code (scopes q)))]"
      unfolding grantIPFSCIDtoUsePKP_def grantIPFSCIDtoUsePKP_action_def Let_def sc
      by (auto simp add: priv_run_check_passes[OF chk] this_litContracts_def priv_setOutput_def
          io_defs split: sum.splits prod.splits)
  }
qed (simp_all add: scope_code_def)

theorem scopes_mapped_to_numbers_witness:
  "events (snd (grantAuthMethodToUsePKP demo_env grant_auth_params alice)) =
     [Issue (AddPermittedAuthMethod ''0x02'' ''app-id-xxx:user-id-yyy'' 918232 [1, 0, 2]),
      Settle (AddPermittedAuthMethod ''0x02'' ''app-id-xxx:user-id-yyy'' 918232 [1, 0, 2])] \<and>
   events (snd (grantIPFSCIDtoUsePKP demo_env grant_ipfs_params alice)) =
     [Issue (AddPermittedAction ''0x02'' ''QmExample'' [1, 0, 2]),
      Settle (AddPermittedAction ''0x02'' ''QmExample'' [1, 0, 2])] \<and>
   map scope_code [''sign_anything'', ''other''] ! 1 = 2 \<and>
   scope_code ''other'' = 2"
proof -
  have a: "litContracts alice \<noteq> None \<and> signer alice \<noteq> None \<and> litNodeClient alice \<noteq> None"
    and e: "events alice = []"
    by (simp_all add: demo_defs)
  note t = scopes_mapped_to_numbers[where this = alice and E = demo_env
      and p = grant_auth_params and q = grant_ipfs_params
      and xs = "[''sign_anything'', ''other'']" and x = "''other''"]
  have c: "map scope_code [''sign_anything'', ''no_permission'', ''eip_191_personal_sign''] =
      [1, 0, 2]"
    using t by (simp add: scope_code_def)
  have g: "events (snd (grantAuthMethodToUsePKP demo_env grant_auth_params alice)) =
     [Issue (AddPermittedAuthMethod ''0x02'' ''app-id-xxx:user-id-yyy'' 918232 [1, 0, 2]),
      Settle (AddPermittedAuthMethod ''0x02'' ''app-id-xxx:user-id-yyy'' 918232 [1, 0, 2])]"
    using t a e c by (simp add: grant_auth_params_def)
  have h: "events (snd (grantIPFSCIDtoUsePKP demo_env grant_ipfs_params alice)) =
     [Issue (AddPermittedAction ''0x02'' ''QmExample'' [1, 0, 2]),
      Settle (AddPermittedAction ''0x02'' ''QmExample'' [1, 0, 2])]"
    using t a e c by (simp add: grant_ipfs_params_def)
  have i: "map scope_code [''sign_anything'', ''other''] ! 1 = 2"
    using t by simp
  have j: "scope_code ''other'' = 2"
    using t by simp
  show ?thesis using g h i j by simp
qed

section \<open>Order of the vendor calls\<close>

text \<open>
  Claim C7, as amended. Every operation other than getPkps makes its vendor calls one
  after the other: each asynchronous call is resumed before the next call is made, so at
  most one is in flight. getPkps awaits the address of the signer and then the list of
  the tokens of that address; when both have arrived it issues one getPubkey call for
  every token of the list, in the order of the list, before any of them is resumed, so
  that with n tokens n calls are in flight at once (at least one of them is resumed, and
  all of them when getPkps returns). When the address or the list does not arrive, the
  calls of getPkps are sequential as well.
\<close>

theorem calls_sequential_except_getPkps:
  "(op \<noteq> GetPkps \<and> perform E op this = (r, this') \<longrightarrow>
      (\<exists>tr. events this' = events this @ tr \<and> sequential tr \<and> peak_in_flight 0 tr \<le> 1)) \<and>
   (signer this = Some sg \<and> litContracts this \<noteq> None \<and>
    reply_string E (length (events this)) (Signer_getAddress sg) = Inr a \<and> a \<noteq> [] \<and>
    reply_strings E (length (events this) + 2) (PkpNft_getTokensByAddress a) = Inr tokens \<longrightarrow>
      (\<exists>n. n \<le> length tokens \<and> (tokens \<noteq> [] \<longrightarrow> 0 < n) \<and>
         events (snd (perform E GetPkps this)) =
           events this @
           [Issue (Signer_getAddress sg), Settle (Signer_getAddress sg),
            Issue (PkpNft_getTokensByAddress a), Settle (PkpNft_getTokensByAddress a)] @
           map (\<lambda>t. Issue (PkpPermissions_getPubkey t)) tokens @
           map (\<lambda>t. Settle (PkpPermissions_getPubkey t)) (take n tokens) \<and>
         ((\<exists>ret. fst (perform E GetPkps this) = Inr ret) \<longrightarrow> n = length tokens)) \<and>
      peak_in_flight 0 (drop (length (events this)) (events (snd (perform E GetPkps this)))) =
        max 1 (length tokens)) \<and>
   ((\<forall>sg a tokens.
       \<not> (signer this = Some sg \<and> litContracts this \<noteq> None \<and>
          reply_string E (length (events this)) (Signer_getAddress sg) = Inr a \<and> a \<noteq> [] \<and>
          reply_strings E (length (events this) + 2) (PkpNft_getTokensByAddress a) =
            Inr tokens)) \<longrightarrow>
      (\<exists>tr. events (snd (perform E GetPkps this)) = events this @ tr \<and> sequential tr))"
proof (intro conjI impI)
  assume a: "op \<noteq> GetPkps \<and> perform E op this = (r, this')"
  then obtain tr where "events this' = events this @ tr" "sequential tr"
    using tsD[OF ts_perform, of op E this r this'] by blast
  then show "\<exists>tr. events this' = events this @ tr \<and> sequential tr \<and> peak_in_flight 0 tr \<le> 1"
    using sequential_peak by blast
next
  assume h: "signer this = Some sg \<and> litContracts this \<noteq> None \<and>
    reply_string E (length (events this)) (Signer_getAddress sg) = Inr a \<and> a \<noteq> [] \<and>
    reply_strings E (length (events this) + 2) (PkpNft_getTokensByAddress a) = Inr tokens"
  let ?s = "this\<lparr>ticks := Suc (ticks this)\<rparr>"
  have chk: "fst (priv_checkRequirements FN_getPkps this) = Inr ()"
    using h by (auto simp add: require_defs)
  obtain n where n: "n \<le> length tokens" "tokens \<noteq> [] \<longrightarrow> 0 < n"
    and ev: "events (snd (getPkps_action E ?s)) =
         events ?s @
         [Issue (Signer_getAddress sg), Settle (Signer_getAddress sg),
          Issue (PkpNft_getTokensByAddress a), Settle (PkpNft_getTokensByAddress a)] @
         map (\<lambda>t. Issue (PkpPermissions_getPubkey t)) tokens @
         map (\<lambda>t. Settle (PkpPermissions_getPubkey t)) (take n tokens)"
    and all: "\<forall>ys. fst (getPkps_action E ?s) = Inr ys \<longrightarrow> n = length tokens"
    using getPkps_action_trace[of ?s sg E a tokens] h by auto
  have ev': "events (snd (perform E GetPkps this)) =
         events this @
         [Issue (Signer_getAddress sg), Settle (Signer_getAddress sg),
          Issue (PkpNft_getTokensByAddress a), Settle (PkpNft_getTokensByAddress a)] @
         map (\<lambda>t. Issue (PkpPermissions_getPubkey t)) tokens @
         map (\<lambda>t. Settle (PkpPermissions_getPubkey t)) (take n tokens)"
    using perform_getPkps_run(1)[OF chk, of E] ev by simp
  have "(\<exists>ret. fst (perform E GetPkps this) = Inr ret) \<longrightarrow> n = length tokens"
    using perform_getPkps_run(2)[OF chk, of E] all by blast
  with n ev' show "\<exists>n. n \<le> length tokens \<and> (tokens \<noteq> [] \<longrightarrow> 0 < n) \<and>
         events (snd (perform E GetPkps this)) =
           events this @
           [Issue (Signer_getAddress sg), Settle (Signer_getAddress sg),
            Issue (PkpNft_getTokensByAddress a), Settle (PkpNft_getTokensByAddress a)] @
           map (\<lambda>t. Issue (PkpPermissions_getPubkey t)) tokens @
           map (\<lambda>t. Settle (PkpPermissions_getPubkey t)) (take n tokens) \<and>
         ((\<exists>ret. fst (perform E GetPkps this) = Inr ret) \<longrightarrow> n = length tokens)"
    by blast
  show "peak_in_flight 0 (drop (length (events this)) (events (snd (perform E GetPkps this)))) =
      max 1 (length tokens)"
    unfolding ev' by (simp add: peak_fan_out)
next
  assume no: "\<forall>sg a tokens.
       \<not> (signer this = Some sg \<and> litContracts this \<noteq> None \<and>
          reply_string E (length (events this)) (Signer_getAddress sg) = Inr a \<and> a \<noteq> [] \<and>
          reply_strings E (length (events this) + 2) (PkpNft_getTokensByAddress a) =
            Inr tokens)"
  let ?s = "this\<lparr>ticks := Suc (ticks this)\<rparr>"
  show "\<exists>tr. events (snd (perform E GetPkps this)) = events this @ tr \<and> sequential tr"
  proof (cases "fst (priv_checkRequirements FN_getPkps this)")
    case (Inl e)
    then have "priv_checkRequirements FN_getPkps this = (Inl e, this)"
      using checkRequirements_pair[of FN_getPkps this] by simp
    then have "events (snd (perform E GetPkps this)) = events this @ []"
      by (simp add: getPkps_def io_bind_def)
    then show ?thesis by (intro exI[of _ "[]"]) simp
  next
    case (Inr u)
    have "\<exists>tr. events (snd (getPkps_action E ?s)) = events ?s @ tr \<and> sequential tr"
      using no by (intro getPkps_action_early) auto
    then show ?thesis
      using perform_getPkps_run(1)[of this E] Inr by simp
  qed
qed

text \<open>
  The claim as it was stated fails: with two tokens, getPkps has two getPubkey calls in
  flight.
\<close>

theorem getPkps_concurrent_counterexample:
  "events (snd (perform demo_env GetPkps alice)) =
     [Issue (Signer_getAddress (Signer 1)), Settle (Signer_getAddress (Signer 1)),
      Issue (PkpNft_getTokensByAddress ''0xabc''), Settle (PkpNft_getTokensByAddress ''0xabc''),
      Issue (PkpPermissions_getPubkey ''1''), Issue (PkpPermissions_getPubkey ''2''),
      Settle (PkpPermissions_getPubkey ''1''), Settle (PkpPermissions_getPubkey ''2'')] \<and>
   \<not> sequential (events (snd (perform demo_env GetPkps alice))) \<and>
   peak_in_flight 0 (events (snd (perform demo_env GetPkps alice))) = 2"
proof -
  have ev: "events (snd (perform demo_env GetPkps alice)) =
     [Issue (Signer_getAddress (Signer 1)), Settle (Signer_getAddress (Signer 1)),
      Issue (PkpNft_getTokensByAddress ''0xabc''), Settle (PkpNft_getTokensByAddress ''0xabc''),
      Issue (PkpPermissions_getPubkey ''1''), Issue (PkpPermissions_getPubkey ''2''),
      Settle (PkpPermissions_getPubkey ''1''), Settle (PkpPermissions_getPubkey ''2'')]"
    by (simp add: getPkps_def io_defs class_defs demo_defs)
  show ?thesis
    unfolding ev by simp
qed

theorem calls_sequential_except_getPkps_witness:
  "sequential (events (snd (perform demo_env (MintCreditsNFT credits_params) alice))) \<and>
   events (snd (perform demo_env GetPkps alice)) =
     [Issue (Signer_getAddress (Signer 1)), Settle (Signer_getAddress (Signer 1)),
      Issue (PkpNft_getTokensByAddress ''0xabc''), Settle (PkpNft_getTokensByAddress ''0xabc''),
      Issue (PkpPermissions_getPubkey ''1''), Issue (PkpPermissions_getPubkey ''2''),
      Settle (PkpPermissions_getPubkey ''1''), Settle (PkpPermissions_getPubkey ''2'')] \<and>
   peak_in_flight 0 (events (snd (perform demo_env GetPkps alice))) = 2 \<and>
   sequential (events (snd (perform failing_env GetPkps alice)))"
proof -
  let ?q = "perform demo_env (MintCreditsNFT credits_params) alice"
  let ?g = "perform demo_env GetPkps alice"
  let ?f = "perform failing_env GetPkps alice"
  have e: "events alice = []" and sg: "signer alice = Some (Signer 1)"
    and lc: "litContracts alice \<noteq> None"
    and a: "reply_string demo_env (length (events alice)) (Signer_getAddress (Signer 1)) =
      Inr ''0xabc''"
    and t: "reply_strings demo_env (length (events alice) + 2)
      (PkpNft_getTokensByAddress ''0xabc'') = Inr [''1'', ''2'']"
    and f: "\<And>n c. reply_string failing_env n c = Inl (Error ''network down'')"
    by (simp_all add: demo_defs)
  have ok: "\<exists>ret. fst ?g = Inr ret"
    by (simp add: getPkps_def io_defs class_defs demo_defs)
  have q: "sequential (events (snd ?q))"
    using calls_sequential_except_getPkps[where op = "MintCreditsNFT credits_params"
        and E = demo_env and this = alice and r = "fst ?q" and this' = "snd ?q"
        and sg = "Signer 1" and a = "''0xabc''" and tokens = "[''1'', ''2'']"] e
    by auto
  note g = calls_sequential_except_getPkps[where op = GetPkps
        and E = demo_env and this = alice and r = "fst ?g" and this' = "snd ?g"
        and sg = "Signer 1" and a = "''0xabc''" and tokens = "[''1'', ''2'']"]
  have ev: "events (snd ?g) =
     [Issue (Signer_getAddress (Signer 1)), Settle (Signer_getAddress (Signer 1)),
      Issue (PkpNft_getTokensByAddress ''0xabc''), Settle (PkpNft_getTokensByAddress ''0xabc''),
      Issue (PkpPermissions_getPubkey ''1''), Issue (PkpPermissions_getPubkey ''2''),
      Settle (PkpPermissions_getPubkey ''1''), Settle (PkpPermissions_getPubkey ''2'')]"
    using g e sg lc a t ok by auto
  have pk: "peak_in_flight 0 (events (snd ?g)) = 2"
    using g e sg lc a t by simp
  have fl: "sequential (events (snd ?f))"
    using calls_sequential_except_getPkps[where op = GetPkps
        and E = failing_env and this = alice and r = "fst ?f" and this' = "snd ?f"
        and sg = "Signer 1" and a = "''0xabc''" and tokens = "[''1'', ''2'']"] e f
    by auto
  show ?thesis using q ev pk fl by simp
qed

section \<open>The generated file\<close>

text \<open>
  Claim C6, as amended. For a bundle text t the file the build script writes consists of
  the fixed header comment, then \<open>export const code = \<close>, then a JSON string
  encoding of the transformed text, then a semicolon and a line feed. The transformed
  text is t after four replacements of all matches, one after the other: every
  occurrence of the unminified require line deleted; every occurrence of
  \<open>import_ethers.\<close> deleted; every match deleted of \<open>var\<close>, white space, a run of
  letters, digits and underscores, \<open>=\<close>, another such run and \<open>("ethers");\<close>;
  every letter followed by \<open>.ethers\<close> replaced by \<open>ethers\<close>. One file is written
  for every output file of the build, and none when the build reports errors.
\<close>

theorem generated_file:
  \<open>(\<exists>J. wrappedContent (strip_ethers t) =
          units ''/**'' @ [0x0A] @
          units '' * DO NOT EDIT THIS FILE. IT IS GENERATED ON BUILD. RUN `yarn generate-lit-actions` IN THE ROOT DIRECTORY TO UPDATE THIS FILE.'' @ [0x0A] @
          units '' * '' @ [0x0A] @
          units '' * @type { string } code - Lit Action code. You want to use the content in the "code" constant and NOT the content of this file.'' @ [0x0A] @
          units '' * '' @ [0x0A] @
          units '' */'' @ [0x0A] @
          units ''export const code = '' @ J @ units '';'' @ [0x0A] \<and>
        JSON_string_value J = Some (spec_transform t)) \<and>
   onEnd resolve [] files =
     map (\<lambda>f. (resolve (path f), wrappedContent (strip_ethers (text_of f)))) files \<and>
   onEnd resolve (e # es) files = []\<close>
proof (intro conjI)
  have \<open>wrappedContent (strip_ethers t) =
          units ''/**'' @ [0x0A] @
          units '' * DO NOT EDIT THIS FILE. IT IS GENERATED ON BUILD. RUN `yarn generate-lit-actions` IN THE ROOT DIRECTORY TO UPDATE THIS FILE.'' @ [0x0A] @
          units '' * '' @ [0x0A] @
          units '' * @type { string } code - Lit Action code. You want to use the content in the "code" constant and NOT the content of this file.'' @ [0x0A] @
          units '' * '' @ [0x0A] @
          units '' */'' @ [0x0A] @
          units ''export const code = '' @ JSON_stringify (strip_ethers t) @ units '';'' @ [0x0A]\<close>
    by (simp add: wrappedContent_def generated_header_def)
  moreover have "JSON_string_value (JSON_stringify (strip_ethers t)) = Some (spec_transform t)"
    by (simp add: JSON_string_value_stringify strip_ethers_spec)
  ultimately show \<open>\<exists>J. wrappedContent (strip_ethers t) =
          units ''/**'' @ [0x0A] @
          units '' * DO NOT EDIT THIS FILE. IT IS GENERATED ON BUILD. RUN `yarn generate-lit-actions` IN THE ROOT DIRECTORY TO UPDATE THIS FILE.'' @ [0x0A] @
          units '' * '' @ [0x0A] @
          units '' * @type { string } code - Lit Action code. You want to use the content in the "code" constant and NOT the content of this file.'' @ [0x0A] @
          units '' * '' @ [0x0A] @
          units '' */'' @ [0x0A] @
          units ''export const code = '' @ J @ units '';'' @ [0x0A] \<and>
        JSON_string_value J = Some (spec_transform t)\<close>
    by blast
qed (simp_all add: onEnd_def)

text \<open>
  The claim as it was stated fails in two places. With the names of the declaration read
  as identifiers, \<open>var $=o("ethers");\<close> is a match, yet the script keeps it, and
  \<open>var 1=2("ethers");\<close> is none, yet the script deletes it. And the file does not end
  with the JSON string: a semicolon and a line feed follow it.
\<close>

theorem generated_file_counterexample:
  \<open>strip_ethers (units ''var $=o("ethers");'') = units ''var $=o("ethers");'' \<and>
   identifier_transform (units ''var $=o("ethers");'') = [] \<and>
   strip_ethers (units ''var 1=2("ethers");'') = [] \<and>
   identifier_transform (units ''var 1=2("ethers");'') = units ''var 1=2("ethers");'' \<and>
   wrappedContent [] =
     generated_header @ units ''export const code = '' @ JSON_stringify [] @ units '';'' @ [0x0A] \<and>
   wrappedContent [] \<noteq> generated_header @ units ''export const code = '' @ JSON_stringify []\<close>
  by (simp add: strip_ethers_spec spec_transform_def identifier_transform_def
      identifier_declaration_def identifier_length_def is_identifier_start_def
      is_identifier_part_def units_def occurrence_def var_declaration_def
      letter_dot_ethers_def class_eqs is_space_def is_word_def is_letter_def Let_def
      wrappedContent_def)

theorem generated_file_witness:
  \<open>(\<exists>J. wrappedContent (strip_ethers minified_bundle) =
          units ''/**'' @ [0x0A] @
          units '' * DO NOT EDIT THIS FILE. IT IS GENERATED ON BUILD. RUN `yarn generate-lit-actions` IN THE ROOT DIRECTORY TO UPDATE THIS FILE.'' @ [0x0A] @
          units '' * '' @ [0x0A] @
          units '' * @type { string } code - Lit Action code. You want to use the content in the "code" constant and NOT the content of this file.'' @ [0x0A] @
          units '' * '' @ [0x0A] @
          units '' */'' @ [0x0A] @
          units ''export const code = '' @ J @ units '';'' @ [0x0A] \<and>
        JSON_string_value J =
          Some (units ''go(ethers.utils);'' @ [0x0A] @ units ''log("a'' @ [0x5C] @
                units ''b");'')) \<and>
   JSON_stringify (strip_ethers minified_bundle) =
     units ''"go(ethers.utils);'' @ [0x5C, 0x6E] @ units ''log('' @ [0x5C, 0x22] @
     units ''a'' @ [0x5C, 0x5C] @ units ''b'' @ [0x5C, 0x22] @ units '');"'' \<and>
   onEnd (\<lambda>p. ''/repo/'' @ p) [] [\<lparr>path = ''dist/a.js'', text_of = minified_bundle\<rparr>] =
     [(''/repo/dist/a.js'', wrappedContent (strip_ethers minified_bundle))]\<close>
proof -
  have t: \<open>spec_transform minified_bundle =
      units ''go(ethers.utils);'' @ [0x0A] @ units ''log("a'' @ [0x5C] @ units ''b");''\<close>
    by (simp add: spec_transform_def minified_bundle_def units_def
      occurrence_def var_declaration_def letter_dot_ethers_def class_eqs is_space_def
      is_word_def is_letter_def Let_def)
  have j: \<open>JSON_stringify (strip_ethers minified_bundle) =
     units ''"go(ethers.utils);'' @ [0x5C, 0x6E] @ units ''log('' @ [0x5C, 0x22] @
     units ''a'' @ [0x5C, 0x5C] @ units ''b'' @ [0x5C, 0x22] @ units '');"''\<close>
    unfolding strip_ethers_spec t
    by (simp add: JSON_stringify_def units_def quote_unit_def is_leading_surrogate_def
        is_trailing_surrogate_def)
  note g = generated_file[where t = minified_bundle and resolve = "\<lambda>p. ''/repo/'' @ p"
        and files = "[\<lparr>path = ''dist/a.js'', text_of = minified_bundle\<rparr>]"
        and e = "''x''" and es = "[]"]
  have a: \<open>\<exists>J. wrappedContent (strip_ethers minified_bundle) =
          units ''/**'' @ [0x0A] @
          units '' * DO NOT EDIT THIS FILE. IT IS GENERATED ON BUILD. RUN `yarn generate-lit-actions` IN THE ROOT DIRECTORY TO UPDATE THIS FILE.'' @ [0x0A] @
          units '' * '' @ [0x0A] @
          units '' * @type { string } code - Lit Action code. You want to use the content in the "code" constant and NOT the content of this file.'' @ [0x0A] @
          units '' * '' @ [0x0A] @
          units '' */'' @ [0x0A] @
          units ''export const code = '' @ J @ units '';'' @ [0x0A] \<and>
        JSON_string_value J =
          Some (units ''go(ethers.utils);'' @ [0x0A] @ units ''log("a'' @ [0x5C] @
                units ''b");'')\<close>
    using g[THEN conjunct1] unfolding t .
  have b: "onEnd (\<lambda>p. ''/repo/'' @ p) [] [\<lparr>path = ''dist/a.js'', text_of = minified_bundle\<rparr>] =
     [(''/repo/dist/a.js'', wrappedContent (strip_ethers minified_bundle))]"
    using g[THEN conjunct2, THEN conjunct1] by simp
  show ?thesis
    using a j b by blast
qed

end
